theory Spec2Isabelle
  imports Complex_Main "HOL-Library.Sublist" "HOL-Library.Log_Nat"
begin

section \<open>Strings as the analyzer reads them\<close>

text \<open>
  A JavaScript string is a sequence of code units. The model uses \<open>string\<close>, so a
  character is a code unit below 256 (read as Latin-1); every keyword, term and template
  name of the program is ASCII. On these code units \<open>String.prototype.toLowerCase\<close>
  maps \<open>A\<close>..\<open>Z\<close> to \<open>a\<close>..\<open>z\<close> and the Latin-1 capitals 192..222 (without 215) to
  the letter 32 places further; it changes nothing else and keeps the length.
\<close>

definition lowerChar :: "char \<Rightarrow> char" where
  "lowerChar c =
     (let n = (of_char c :: nat)
      in if (65 \<le> n \<and> n \<le> 90) \<or> (192 \<le> n \<and> n \<le> 222 \<and> n \<noteq> 215)
         then char_of (n + 32) else c)"

definition toLowerCase :: "string \<Rightarrow> string" where
  "toLowerCase s = map lowerChar s"

text \<open>The class \<open>\s\<close> of a regular expression, which is also what \<open>trim\<close> removes:
  tab, line feed, vertical tab, form feed, carriage return, space, no-break space.\<close>

definition isSpace :: "char \<Rightarrow> bool" where
  "isSpace c = ((of_char c :: nat) \<in> {9, 10, 11, 12, 13, 32, 160})"

text \<open>The class \<open>\w\<close>: ASCII letters, digits and the underscore.\<close>

definition isWordChar :: "char \<Rightarrow> bool" where
  "isWordChar c =
     (let n = (of_char c :: nat)
      in (48 \<le> n \<and> n \<le> 57) \<or> (65 \<le> n \<and> n \<le> 90) \<or> n = 95 \<or> (97 \<le> n \<and> n \<le> 122))"

text \<open>The class \<open>[aeiou]\<close> under the flag \<open>i\<close>.\<close>

definition isVowel :: "char \<Rightarrow> bool" where
  "isVowel c = (c \<in> set ''aeiouAEIOU'')"

text \<open>The class \<open>[.!?]\<close>.\<close>

definition isTerminator :: "char \<Rightarrow> bool" where
  "isTerminator c = (c \<in> set ''.!?'')"

text \<open>\<open>text.includes(w)\<close>: \<open>w\<close> occurs in \<open>text\<close> as a contiguous substring.\<close>

fun includesStr :: "string \<Rightarrow> string \<Rightarrow> bool" where
  "includesStr [] w = (w = [])"
| "includesStr (c # cs) w = (prefix w (c # cs) \<or> includesStr cs w)"

text \<open>
  \<open>text.split(sep)\<close> for a separator that is one character, or a regular expression
  matching exactly one character of a class: the pieces between the separators, an
  empty piece where two separators meet or the text begins or ends with one. The empty
  text gives one empty piece.
\<close>

fun splitOn :: "(char \<Rightarrow> bool) \<Rightarrow> string \<Rightarrow> string list" where
  "splitOn P [] = [[]]"
| "splitOn P (c # cs) =
     (if P c then [] # splitOn P cs
      else (case splitOn P cs of [] \<Rightarrow> [[c]] | t # ts \<Rightarrow> (c # t) # ts))"

text \<open>
  \<open>text.split(/\s+/)\<close>: the separator is a maximal run of white space, so the number
  of pieces is one more than the number of runs.
\<close>

function splitWs :: "string \<Rightarrow> string list" where
  "splitWs [] = [[]]"
| "splitWs (c # cs) =
     (if isSpace c then [] # splitWs (dropWhile isSpace cs)
      else (case splitWs cs of [] \<Rightarrow> [[c]] | t # ts \<Rightarrow> (c # t) # ts))"
  by pat_completeness auto
termination
  by (relation "measure length") (auto simp: less_Suc_eq_le length_dropWhile_le)

definition trim :: "string \<Rightarrow> string" where
  "trim s = rev (dropWhile isSpace (rev (dropWhile isSpace s)))"

text \<open>\<open>pieces.join(sep)\<close>.\<close>

fun join :: "string \<Rightarrow> string list \<Rightarrow> string" where
  "join sep [] = []"
| "join sep [p] = p"
| "join sep (p # q # ps) = p @ sep @ join sep (q # ps)"


subsection \<open>The two global regular expressions\<close>

text \<open>
  \<open>_countOccurrences(text, word)\<close> builds \<open>new RegExp(`\\b${word}\\b`, 'gi')\<close> and
  counts the matches of \<open>text.match\<close>. The model covers a \<open>word\<close> of letters, digits and
  spaces (every term of the analyzer's list is one), which the expression matches
  literally. Under the flag \<open>i\<close> without the flag \<open>u\<close> a text character matches an ASCII
  pattern character when both have the same ASCII capital; no character above 127 matches
  an ASCII one.
\<close>

definition upperAscii :: "char \<Rightarrow> char" where
  "upperAscii c =
     (let n = (of_char c :: nat) in if 97 \<le> n \<and> n \<le> 122 then char_of (n - 32) else c)"

fun matchesLiteral :: "string \<Rightarrow> string \<Rightarrow> bool" where
  "matchesLiteral [] t = True"
| "matchesLiteral (p # ps) [] = False"
| "matchesLiteral (p # ps) (c # cs) = (upperAscii p = upperAscii c \<and> matchesLiteral ps cs)"

text \<open>
  \<open>\b\<close> holds between two positions of which exactly one is a word character; the text
  is bounded by positions that are not. \<open>wordMatchAt prevWord t w\<close>: the expression matches
  at the start of \<open>t\<close>, where \<open>prevWord\<close> says whether the character in front of \<open>t\<close> is a
  word character.
\<close>

definition isWordAt :: "string \<Rightarrow> nat \<Rightarrow> bool" where
  "isWordAt t i = (i < length t \<and> isWordChar (t ! i))"

definition wordMatchAt :: "bool \<Rightarrow> string \<Rightarrow> string \<Rightarrow> bool" where
  "wordMatchAt prevWord t w =
     (prevWord \<noteq> isWordAt t 0 \<and> matchesLiteral w t \<and>
      (if w = [] then prevWord else isWordAt t (length w - 1)) \<noteq> isWordAt t (length w))"

text \<open>
  The flag \<open>g\<close>: the search resumes where the last match ended, one character further
  after a failure (or an empty match), and a match may start at the end of the text.
\<close>

function countFrom :: "bool \<Rightarrow> string \<Rightarrow> string \<Rightarrow> nat" where
  "countFrom prevWord [] w = (if wordMatchAt prevWord [] w then 1 else 0)"
| "countFrom prevWord (c # cs) w =
     (if wordMatchAt prevWord (c # cs) w
      then Suc (if w = [] then countFrom (isWordChar c) cs w
                else countFrom (isWordAt (c # cs) (length w - 1)) (drop (length w) (c # cs)) w)
      else countFrom (isWordChar c) cs w)"
  by pat_completeness auto
termination
  by (relation "measure (\<lambda>(b, t, w). length t)") auto

definition countOccurrences :: "string \<Rightarrow> string \<Rightarrow> nat" where
  "countOccurrences text word = countFrom False text word"

text \<open>
  \<open>_estimateSyllables\<close>: the matches of \<open>/[aeiou]{1,2}/gi\<close>. The quantifier is greedy, so
  a match takes two vowels where two stand together and the search resumes behind them.
\<close>

fun estimateSyllables :: "string \<Rightarrow> nat" where
  "estimateSyllables [] = 0"
| "estimateSyllables [c] = (if isVowel c then 1 else 0)"
| "estimateSyllables (c # d # ds) =
     (if isVowel c
      then (if isVowel d then Suc (estimateSyllables ds) else Suc (estimateSyllables (d # ds)))
      else estimateSyllables (d # ds))"


section \<open>Numbers\<close>

text \<open>
  A JavaScript number is an IEEE 754 binary64 value. The readability formula divides,
  multiplies and subtracts such values, each operation rounding its exact result to the
  nearest representable one, ties to the even significand. A value is modelled by the
  rational it denotes, and \<open>b64\<close> rounds a rational to 53 significant bits. The exponent is
  not bounded here: every value the formula meets is zero or lies between \<open>2 ^ -53\<close> and
  \<open>2 ^ 53\<close> in magnitude as long as the text is shorter than \<open>2 ^ 53\<close> characters (the
  longest string the language allows), so neither overflow nor a subnormal occurs.
\<close>

definition pow2 :: "int \<Rightarrow> rat" where
  "pow2 k = (if 0 \<le> k then 2 ^ nat k else 1 / 2 ^ nat (- k))"

text \<open>For \<open>x > 0\<close>, \<open>ilog2 x\<close> is the exponent \<open>k\<close> with \<open>2 ^ k \<le> x < 2 ^ (k + 1)\<close>.\<close>

definition ilog2 :: "rat \<Rightarrow> int" where
  "ilog2 x =
     (let (p, q) = quotient_of x; k = bitlen p - bitlen q
      in if pow2 k \<le> x then k else k - 1)"

definition roundEven :: "rat \<Rightarrow> int" where
  "roundEven m =
     (let f = \<lfloor>m\<rfloor>; d = m - of_int f
      in if d < 1 / 2 then f else if 1 / 2 < d then f + 1 else if even f then f else f + 1)"

definition b64 :: "rat \<Rightarrow> rat" where
  "b64 x =
     (if x = 0 then 0
      else let e = ilog2 \<bar>x\<bar> - 52
           in sgn x * of_int (roundEven (\<bar>x\<bar> / pow2 e)) * pow2 e)"

definition divN :: "rat \<Rightarrow> rat \<Rightarrow> rat" where
  "divN a b = b64 (a / b)"

definition mulN :: "rat \<Rightarrow> rat \<Rightarrow> rat" where
  "mulN a b = b64 (a * b)"

definition subN :: "rat \<Rightarrow> rat \<Rightarrow> rat" where
  "subN a b = b64 (a - b)"

text \<open>A decimal literal denotes the representable value nearest to it.\<close>

definition literalN :: "rat \<Rightarrow> rat" where
  "literalN x = b64 x"

text \<open>\<open>Math.round\<close>: the nearest integer, the upper one of two equally near.\<close>

definition mathRound :: "rat \<Rightarrow> int" where
  "mathRound x = \<lfloor>x + 1 / 2\<rfloor>"


section \<open>Documents\<close>

text \<open>
  A \<open>Date\<close> is the number of milliseconds it denotes. An object whose keys matter in
  their order (the sections of a document, the template registry) is an association
  list in the order of \<open>Object.keys\<close>; no key of the program is an array index, so that
  is the order of insertion. A section whose \<open>content\<close> is \<open>undefined\<close> or \<open>null\<close> has
  \<open>None\<close> there. The fields of a record carry a prefix, because the program uses names
  such as \<open>content\<close>, \<open>sections\<close>, \<open>text\<close> and \<open>wordCount\<close> in several objects.
\<close>

type_synonym timestamp = nat

datatype error =
    UnknownDocumentType string
  | TypeError string
  | AnalysisFailed string
  | CaseNotFound

fun message :: "error \<Rightarrow> string" where
  "message (UnknownDocumentType t) = ''Unknown document type: '' @ t"
| "message (TypeError m) = m"
| "message (AnalysisFailed m) = ''Analysis failed: '' @ m"
| "message CaseNotFound = ''Case not found''"

record doc_section =
  sec_heading :: string
  sec_content :: "string option"
  sec_timestamp :: timestamp

record doc_content =
  c_title :: string
  c_sections :: "(string \<times> doc_section) list"

record template =
  t_title :: string
  t_sections :: "string list"

record metadata =
  md_created :: timestamp
  md_modified :: timestamp
  md_author :: string
  md_status :: string

subsection \<open>The result of an analysis\<close>

record summary =
  sum_text :: string
  sum_wordCount :: nat
  sum_sentenceCount :: nat
  sum_characterCount :: nat

record key_point =
  kp_category :: string
  kp_text :: string
  kp_importance :: string

record legal_term =
  lt_term :: string
  lt_occurrences :: nat

record section_stat =
  ss_name :: string
  ss_wordCount :: nat
  ss_isEmpty :: bool

record structure_report =
  st_totalSections :: nat
  st_sections :: "section_stat list"

record sentiment =
  sn_overall :: string
  sn_positiveIndicators :: nat
  sn_negativeIndicators :: nat

record risk =
  rk_type :: string
  rk_severity :: string
  rk_description :: string

record recommendation =
  rc_priority :: string
  rc_text :: string

record readability =
  rd_score :: int
  rd_difficulty :: string
  rd_wordCount :: nat
  rd_sentenceCount :: nat

record analysis =
  an_documentId :: string
  an_documentType :: string
  an_analyzedAt :: timestamp
  an_summary :: summary
  an_keyPoints :: "key_point list"
  an_legalTerms :: "legal_term list"
  an_sections :: structure_report
  an_sentiment :: sentiment
  an_risks :: "risk list"
  an_recommendations :: "recommendation list"
  an_readability :: readability

record document =
  doc_id :: string
  doc_name :: string
  doc_type :: string
  doc_caseId :: "string option"
  doc_template :: template
  doc_content :: doc_content
  doc_metadata :: metadata
  doc_version :: nat
  doc_tags :: "string list"
  doc_analysis :: "analysis option"


section \<open>The document analyzer\<close>

definition legalKeywords :: "(string \<times> string list) list" where
  "legalKeywords =
     [(''obligations'', [''must'', ''shall'', ''required to'', ''obligated to'']),
      (''rights'', [''may'', ''entitled to'', ''has the right to'', ''can'']),
      (''penalties'', [''penalty'', ''fine'', ''breach'', ''violation'', ''damages'']),
      (''dates'', [''on or before'', ''within'', ''by'', ''effective date'', ''expiration'']),
      (''parties'', [''party'', ''parties'', ''hereinafter'', ''referred to as''])]"

text \<open>\<open>v || ''\<close> for a value that is a string, \<open>undefined\<close> or \<open>null\<close>.\<close>

definition orEmpty :: "string option \<Rightarrow> string" where
  "orEmpty v = (case v of None \<Rightarrow> [] | Some s \<Rightarrow> s)"

definition extractAllText :: "document \<Rightarrow> string" where
  "extractAllText d =
     fold (\<lambda>section text. text @ '' '' @ orEmpty (sec_content section))
       (map snd (c_sections (doc_content d))) (c_title (doc_content d))"

definition isDot :: "char \<Rightarrow> bool" where
  "isDot c = (c = CHR ''.'')"

definition generateSummary :: "document \<Rightarrow> summary" where
  "generateSummary d =
     (let contentText = extractAllText d;
          sentences = filter (\<lambda>s. 0 < length (trim s)) (splitOn isDot contentText)
      in \<lparr>sum_text = join ''. '' (take 3 sentences),
          sum_wordCount = length (splitWs contentText),
          sum_sentenceCount = length sentences,
          sum_characterCount = length contentText\<rparr>)"

text \<open>The three nested \<open>forEach\<close> loops push onto \<open>keyPoints\<close>; \<open>slice(0, 10)\<close> cuts.\<close>

definition pushKeyPoint :: "string \<Rightarrow> string \<Rightarrow> string \<Rightarrow> key_point list \<Rightarrow> key_point list" where
  "pushKeyPoint sentence category keyword keyPoints =
     (if includesStr (toLowerCase sentence) keyword
      then keyPoints @ [\<lparr>kp_category = category, kp_text = trim sentence, kp_importance = ''high''\<rparr>]
      else keyPoints)"

definition extractKeyPoints :: "document \<Rightarrow> key_point list" where
  "extractKeyPoints d =
     (let contentText = extractAllText d;
          sentences = splitOn isDot contentText;
          keyPoints =
            fold (\<lambda>sentence.
                    fold (\<lambda>(category, keywords). fold (pushKeyPoint sentence category) keywords)
                      legalKeywords)
              sentences []
      in take 10 keyPoints)"

definition commonLegalTerms :: "string list" where
  "commonLegalTerms =
     [''agreement'', ''contract'', ''party'', ''obligation'', ''breach'',
      ''indemnify'', ''liability'', ''damages'', ''force majeure'',
      ''arbitration'', ''governing law'', ''jurisdiction'',
      ''entire agreement'', ''amendment'', ''severability'']"

text \<open>
  \<open>Array.prototype.sort(compare)\<close> is stable: it puts \<open>a\<close> in front of \<open>b\<close> when
  \<open>compare(a, b) < 0\<close> and keeps the order of elements that compare equal. For a
  consistent comparison that fixes the result, which insertion from the right computes.
\<close>

fun insertBy :: "('a \<Rightarrow> 'a \<Rightarrow> int) \<Rightarrow> 'a \<Rightarrow> 'a list \<Rightarrow> 'a list" where
  "insertBy cmp x [] = [x]"
| "insertBy cmp x (y # ys) = (if cmp x y \<le> 0 then x # y # ys else y # insertBy cmp x ys)"

definition sortBy :: "('a \<Rightarrow> 'a \<Rightarrow> int) \<Rightarrow> 'a list \<Rightarrow> 'a list" where
  "sortBy cmp xs = foldr (insertBy cmp) xs []"

definition byOccurrences :: "legal_term \<Rightarrow> legal_term \<Rightarrow> int" where
  "byOccurrences a b = int (lt_occurrences b) - int (lt_occurrences a)"

definition pushTerm :: "string \<Rightarrow> string \<Rightarrow> legal_term list \<Rightarrow> legal_term list" where
  "pushTerm contentText term foundTerms =
     (if includesStr contentText term
      then foundTerms @ [\<lparr>lt_term = term, lt_occurrences = countOccurrences contentText term\<rparr>]
      else foundTerms)"

definition extractLegalTerms :: "document \<Rightarrow> legal_term list" where
  "extractLegalTerms d =
     (let contentText = toLowerCase (extractAllText d);
          foundTerms = fold (pushTerm contentText) commonLegalTerms []
      in sortBy byOccurrences foundTerms)"

text \<open>
  \<open>_analyzeStructure\<close> calls \<open>section.content.split\<close> without the guard that
  \<open>_extractAllText\<close> has: a section without content raises a \<open>TypeError\<close> (the text of its
  message is the engine's and is abridged here).
\<close>

definition sectionStat :: "doc_section \<Rightarrow> error + section_stat" where
  "sectionStat section =
     (case sec_content section of
        None \<Rightarrow> Inl (TypeError ''Cannot read properties of undefined (reading split)'')
      | Some c \<Rightarrow>
          Inr \<lparr>ss_name = sec_heading section,
               ss_wordCount = length (splitWs c),
               ss_isEmpty = (includesStr c ''[Add'' \<and> includesStr c ''here]'')\<rparr>)"

fun mapE :: "('a \<Rightarrow> error + 'b) \<Rightarrow> 'a list \<Rightarrow> error + 'b list" where
  "mapE f [] = Inr []"
| "mapE f (x # xs) =
     (case f x of
        Inl e \<Rightarrow> Inl e
      | Inr y \<Rightarrow> (case mapE f xs of Inl e \<Rightarrow> Inl e | Inr ys \<Rightarrow> Inr (y # ys)))"

definition analyzeStructure :: "document \<Rightarrow> error + structure_report" where
  "analyzeStructure d =
     (case mapE sectionStat (map snd (c_sections (doc_content d))) of
        Inl e \<Rightarrow> Inl e
      | Inr stats \<Rightarrow>
          Inr \<lparr>st_totalSections = length (map fst (c_sections (doc_content d))),
               st_sections = stats\<rparr>)"

definition positiveWords :: "string list" where
  "positiveWords = [''agree'', ''beneficial'', ''clear'', ''fair'', ''reasonable'']"

definition negativeWords :: "string list" where
  "negativeWords = [''breach'', ''liable'', ''penalty'', ''violation'', ''dispute'']"

definition analyzeSentiment :: "document \<Rightarrow> sentiment" where
  "analyzeSentiment d =
     (let contentText = toLowerCase (extractAllText d);
          positiveCount = length (filter (\<lambda>word. includesStr contentText word) positiveWords);
          negativeCount = length (filter (\<lambda>word. includesStr contentText word) negativeWords);
          sentiment = (if positiveCount > negativeCount then ''positive''
                       else if negativeCount > positiveCount then ''negative'' else ''neutral'')
      in \<lparr>sn_overall = sentiment,
          sn_positiveIndicators = positiveCount,
          sn_negativeIndicators = negativeCount\<rparr>)"

definition incompleteContent :: risk where
  "incompleteContent =
     \<lparr>rk_type = ''incomplete_content'', rk_severity = ''high'',
      rk_description = ''Document contains placeholder text that needs to be filled''\<rparr>"

definition liabilityClause :: risk where
  "liabilityClause =
     \<lparr>rk_type = ''liability_clause'', rk_severity = ''medium'',
      rk_description = ''Document contains liability provisions''\<rparr>"

definition ambiguousLanguage :: risk where
  \<open>ambiguousLanguage =
     \<lparr>rk_type = ''ambiguous_language'', rk_severity = ''low'',
      rk_description = ''Document contains optional language ("may")''\<rparr>\<close>

definition identifyRisks :: "document \<Rightarrow> risk list" where
  "identifyRisks d =
     (let contentText = extractAllText d
      in (if includesStr contentText ''[Add'' \<and> includesStr contentText ''here]''
          then [incompleteContent] else [])
         @ (if includesStr (toLowerCase contentText) ''liable'' then [liabilityClause] else [])
         @ (if includesStr (toLowerCase contentText) ''may'' then [ambiguousLanguage] else []))"

definition generateRecommendations :: "document \<Rightarrow> recommendation list" where
  "generateRecommendations d =
     (if md_status (doc_metadata d) = ''draft''
      then [\<lparr>rc_priority = ''high'',
             rc_text = ''Document is still in draft status. Review and finalize before use.''\<rparr>]
      else [])
     @ (if md_author (doc_metadata d) = [] \<or> md_author (doc_metadata d) = ''System''
        then [\<lparr>rc_priority = ''medium'', rc_text = ''Assign proper author to document''\<rparr>]
        else [])
     @ (if doc_analysis d = None
        then [\<lparr>rc_priority = ''medium'',
               rc_text = ''Run full legal analysis for comprehensive review''\<rparr>]
        else [])"

definition readingEase :: "nat \<Rightarrow> nat \<Rightarrow> nat \<Rightarrow> rat" where
  "readingEase words sentences syllables =
     max 0 (min 100
       (subN (subN (literalN (206835 / 1000))
                (mulN (literalN (1015 / 1000)) (divN (of_nat words) (of_nat sentences))))
          (mulN (literalN (846 / 10)) (divN (of_nat syllables) (of_nat words)))))"

definition calculateReadability :: "document \<Rightarrow> readability" where
  "calculateReadability d =
     (let contentText = extractAllText d;
          words = length (splitWs contentText);
          sentences = length (splitOn isTerminator contentText);
          syllables = estimateSyllables contentText;
          ease = readingEase words sentences syllables
      in \<lparr>rd_score = mathRound ease,
          rd_difficulty = (if ease > 80 then ''Easy''
                           else if ease > 50 then ''Medium''
                           else if ease > 30 then ''Difficult'' else ''Very Difficult''),
          rd_wordCount = words,
          rd_sentenceCount = sentences\<rparr>)"

text \<open>
  \<open>analyze\<close> reads the clock for \<open>analyzedAt\<close>; \<open>now\<close> is what \<open>new Date()\<close> gives at the
  call. Only \<open>_analyzeStructure\<close> can raise, and the handler wraps what it raised.
\<close>

definition analyze :: "timestamp \<Rightarrow> document \<Rightarrow> error + analysis" where
  "analyze now d =
     (case analyzeStructure d of
        Inl e \<Rightarrow> Inl (AnalysisFailed (message e))
      | Inr sections \<Rightarrow>
          Inr \<lparr>an_documentId = doc_id d,
               an_documentType = doc_type d,
               an_analyzedAt = now,
               an_summary = generateSummary d,
               an_keyPoints = extractKeyPoints d,
               an_legalTerms = extractLegalTerms d,
               an_sections = sections,
               an_sentiment = analyzeSentiment d,
               an_risks = identifyRisks d,
               an_recommendations = generateRecommendations d,
               an_readability = calculateReadability d\<rparr>)"


subsection \<open>Comparing two documents\<close>

record similarities =
  sm_commonWords :: nat
  sm_commonTerms :: "string list"

record differences =
  df_lengthDifference :: nat
  df_wordCountDifference :: nat

record structural_differences =
  sd_doc1Sections :: nat
  sd_doc2Sections :: nat

record comparison =
  cmp_similarities :: similarities
  cmp_differences :: differences
  cmp_structuralDifferences :: structural_differences

text \<open>\<open>new Set(xs)\<close> keeps the first occurrence of each element, in the order of \<open>xs\<close>;
  spreading the set gives that list back.\<close>

definition newSet :: "'a list \<Rightarrow> 'a list" where
  "newSet xs = fold (\<lambda>x elems. if x \<in> set elems then elems else elems @ [x]) xs []"

text \<open>\<open>Math.abs(a - b)\<close> on two lengths.\<close>

definition absDiff :: "nat \<Rightarrow> nat \<Rightarrow> nat" where
  "absDiff a b = nat \<bar>int a - int b\<bar>"

definition findSimilarities :: "document \<Rightarrow> document \<Rightarrow> similarities" where
  "findSimilarities doc1 doc2 =
     (let text1 = toLowerCase (extractAllText doc1);
          text2 = toLowerCase (extractAllText doc2);
          words1 = newSet (splitWs text1);
          words2 = newSet (splitWs text2);
          common = filter (\<lambda>word. word \<in> set words2) words1
      in \<lparr>sm_commonWords = length common, sm_commonTerms = take 20 common\<rparr>)"

definition findDifferences :: "document \<Rightarrow> document \<Rightarrow> differences" where
  "findDifferences doc1 doc2 =
     (let text1 = toLowerCase (extractAllText doc1);
          text2 = toLowerCase (extractAllText doc2)
      in \<lparr>df_lengthDifference = absDiff (length text1) (length text2),
          df_wordCountDifference = absDiff (length (splitWs text1)) (length (splitWs text2))\<rparr>)"

definition compareStructure :: "document \<Rightarrow> document \<Rightarrow> structural_differences" where
  "compareStructure doc1 doc2 =
     \<lparr>sd_doc1Sections = length (map fst (c_sections (doc_content doc1))),
      sd_doc2Sections = length (map fst (c_sections (doc_content doc2)))\<rparr>"

definition comparDocuments :: "document \<Rightarrow> document \<Rightarrow> comparison" where
  "comparDocuments doc1 doc2 =
     \<lparr>cmp_similarities = findSimilarities doc1 doc2,
      cmp_differences = findDifferences doc1 doc2,
      cmp_structuralDifferences = compareStructure doc1 doc2\<rparr>"

section \<open>The document generator\<close>

definition templates :: "(string \<times> template) list" where
  "templates =
     [(''contract'', \<lparr>t_title = ''Legal Contract'',
         t_sections = [''Header'', ''Parties'', ''Terms'', ''Conditions'', ''Signatures'']\<rparr>),
      (''brief'', \<lparr>t_title = ''Legal Brief'',
         t_sections = [''Title'', ''Statement of Facts'', ''Legal Issues'', ''Arguments'',
                       ''Conclusion'']\<rparr>),
      (''memo'', \<lparr>t_title = ''Legal Memorandum'',
         t_sections = [''To'', ''From'', ''Date'', ''Subject'', ''Issue'', ''Analysis'',
                       ''Conclusion'']\<rparr>),
      (''complaint'', \<lparr>t_title = ''Legal Complaint'',
         t_sections = [''Heading'', ''Introduction'', ''Jurisdiction'', ''Parties'', ''Facts'',
                       ''Claims'', ''Prayer for Relief'']\<rparr>),
      (''agreement'', \<lparr>t_title = ''Agreement'',
         t_sections = [''Preamble'', ''Recitals'', ''Terms and Conditions'', ''Signatures'']\<rparr>)]"

text \<open>
  \<open>this.templates\<close> is an object literal, so \<open>this.templates[key]\<close> reaches, for a key
  that is not one of its own, the properties that every object inherits from
  \<open>Object.prototype\<close>. Each of them is a function or an object, hence truthy, and has
  neither a \<open>title\<close> nor \<open>sections\<close>.
\<close>

definition objectPrototypeKeys :: "string list" where
  "objectPrototypeKeys =
     [''constructor'', ''__proto__'', ''hasOwnProperty'', ''isPrototypeOf'',
      ''propertyIsEnumerable'', ''toLocaleString'', ''toString'', ''valueOf'',
      ''__defineGetter__'', ''__defineSetter__'', ''__lookupGetter__'', ''__lookupSetter__'']"

datatype template_slot = Own template | Inherited | Absent

definition getTemplate :: "(string \<times> template) list \<Rightarrow> string \<Rightarrow> template_slot" where
  "getTemplate registry key =
     (case map_of registry key of
        Some t \<Rightarrow> Own t
      | None \<Rightarrow> if key \<in> set objectPrototypeKeys then Inherited else Absent)"

text \<open>
  The caller's \<open>content\<close>: its string properties (\<open>title\<close>, \<open>author\<close>, one per section it
  overrides) and its \<open>tags\<close>.
\<close>

record content_data =
  cd_fields :: "(string \<times> string) list"
  cd_tags :: "string list option"

text \<open>\<open>v || d\<close> for a value that is a string or \<open>undefined\<close>: the empty string is falsy.\<close>

definition orElse :: "string option \<Rightarrow> string \<Rightarrow> string" where
  "orElse v d = (case v of None \<Rightarrow> d | Some s \<Rightarrow> if s = [] then d else s)"

definition placeholder :: "string \<Rightarrow> string" where
  "placeholder section = ''[Add '' @ section @ '' content here]''"

text \<open>\<open>obj[key] = v\<close>: a new key goes to the end, a present one keeps its place.\<close>

fun objSet :: "('k \<times> 'v) list \<Rightarrow> 'k \<Rightarrow> 'v \<Rightarrow> ('k \<times> 'v) list" where
  "objSet [] k v = [(k, v)]"
| "objSet ((k', v') # kvs) k v = (if k' = k then (k, v) # kvs else (k', v') # objSet kvs k v)"

text \<open>
  What the generator takes from outside: the identifier \<open>uuidv4()\<close> returns, the clock
  (\<open>env_now\<close> is what \<open>new Date()\<close> gives for a missing \<open>timestamp\<close> option, \<open>env_dates i\<close>
  what it gives for the \<open>i\<close>-th section), and the rendering
  \<open>moment(timestamp).format('YYYY-MM-DD_HHmmss')\<close> of a date.
\<close>

record env =
  env_uuid :: string
  env_now :: timestamp
  env_dates :: "nat \<Rightarrow> timestamp"
  env_format :: "timestamp \<Rightarrow> string"

definition generateContent :: "env \<Rightarrow> template \<Rightarrow> content_data \<Rightarrow> doc_content" where
  "generateContent e template contentData =
     \<lparr>c_title = orElse (map_of (cd_fields contentData) ''title'') (t_title template),
      c_sections =
        fold (\<lambda>(i, section) sections.
                objSet sections section
                  \<lparr>sec_heading = section,
                   sec_content =
                     Some (orElse (map_of (cd_fields contentData) section) (placeholder section)),
                   sec_timestamp = env_dates e i\<rparr>)
          (enumerate 0 (t_sections template)) []\<rparr>"

record options =
  opt_caseId :: "string option"
  opt_documentType :: "string option"
  opt_content :: "content_data option"
  opt_timestamp :: "timestamp option"

definition generate :: "env \<Rightarrow> (string \<times> template) list \<Rightarrow> options \<Rightarrow> error + document" where
  "generate e registry opts =
     (let caseId = opt_caseId opts;
          documentType = (case opt_documentType opts of None \<Rightarrow> ''memo'' | Some t \<Rightarrow> t);
          content = (case opt_content opts of
                       None \<Rightarrow> \<lparr>cd_fields = [], cd_tags = None\<rparr> | Some c \<Rightarrow> c);
          timestamp = (case opt_timestamp opts of None \<Rightarrow> env_now e | Some t \<Rightarrow> t)
      in case getTemplate registry documentType of
           Absent \<Rightarrow> Inl (UnknownDocumentType documentType)
         | Inherited \<Rightarrow>
             Inl (TypeError ''Cannot read properties of undefined (reading forEach)'')
         | Own template \<Rightarrow>
             Inr \<lparr>doc_id = env_uuid e,
                  doc_name = t_title template @ ''_'' @ env_format e timestamp,
                  doc_type = documentType,
                  doc_caseId = caseId,
                  doc_template = template,
                  doc_content = generateContent e template content,
                  doc_metadata =
                    \<lparr>md_created = timestamp, md_modified = timestamp,
                     md_author = orElse (map_of (cd_fields content) ''author'') ''System'',
                     md_status = ''draft''\<rparr>,
                  doc_version = 1,
                  doc_tags = (case cd_tags content of None \<Rightarrow> [] | Some ts \<Rightarrow> ts),
                  doc_analysis = None\<rparr>)"

text \<open>
  \<open>updateDocument\<close> spreads \<open>updates\<close> over the content: a \<open>title\<close> or \<open>sections\<close> among
  the updates replaces the document's (other keys of \<open>updates\<close> end up in the content
  too, where nothing reads them). \<open>now\<close> is what \<open>new Date()\<close> gives at the call.
\<close>

record updates =
  up_title :: "string option"
  up_sections :: "(string \<times> doc_section) list option"

definition updateDocument :: "timestamp \<Rightarrow> document \<Rightarrow> updates \<Rightarrow> document" where
  "updateDocument now d u =
     d\<lparr>doc_content :=
         \<lparr>c_title = (case up_title u of None \<Rightarrow> c_title (doc_content d) | Some t \<Rightarrow> t),
          c_sections =
            (case up_sections u of None \<Rightarrow> c_sections (doc_content d) | Some ss \<Rightarrow> ss)\<rparr>,
       doc_metadata := (doc_metadata d)\<lparr>md_modified := now\<rparr>,
       doc_version := doc_version d + 1\<rparr>"

section \<open>The facade and the case store\<close>

record case_obj =
  case_id :: string
  case_name :: string
  case_status :: string
  case_modifiedAt :: timestamp
  case_documents :: "string list"

record manager =
  mg_templates :: "(string \<times> template) list"
  mg_documents :: "string \<rightharpoonup> document"
  mg_cases :: "string \<rightharpoonup> case_obj"

definition addDocumentToCase ::
  "timestamp \<Rightarrow> string \<Rightarrow> string \<Rightarrow> (string \<rightharpoonup> case_obj) \<Rightarrow> error + (string \<rightharpoonup> case_obj)" where
  "addDocumentToCase now caseId documentId cases =
     (case cases caseId of
        None \<Rightarrow> Inl CaseNotFound
      | Some caseObj \<Rightarrow>
          if documentId \<in> set (case_documents caseObj) then Inr cases
          else Inr (cases(caseId \<mapsto>
                 caseObj\<lparr>case_documents := case_documents caseObj @ [documentId],
                         case_modifiedAt := now\<rparr>)))"

text \<open>
  \<open>createDocument\<close> returns the document it made, or what was raised, together with the
  state it leaves: an error of \<open>addDocumentToCase\<close> comes after the document was stored.
  \<open>now\<close> is the \<open>new Date()\<close> of the call, \<open>later\<close> the one inside \<open>addDocumentToCase\<close>.
\<close>

definition createDocument ::
  "env \<Rightarrow> timestamp \<Rightarrow> timestamp \<Rightarrow> string option \<Rightarrow> string option \<Rightarrow> content_data option
     \<Rightarrow> manager \<Rightarrow> (error + document) \<times> manager" where
  "createDocument e now later caseId documentType content m =
     (case generate e (mg_templates m)
             \<lparr>opt_caseId = caseId, opt_documentType = documentType, opt_content = content,
              opt_timestamp = Some now\<rparr> of
        Inl err \<Rightarrow> (Inl err, m)
      | Inr document \<Rightarrow>
          (let m1 = m\<lparr>mg_documents := (mg_documents m)(doc_id document \<mapsto> document)\<rparr>
           in case caseId of
                None \<Rightarrow> (Inr document, m1)
              | Some cid \<Rightarrow>
                  if cid = [] then (Inr document, m1)
                  else (case addDocumentToCase later cid (doc_id document) (mg_cases m1) of
                          Inl err \<Rightarrow> (Inl err, m1)
                        | Inr cases \<Rightarrow> (Inr document, m1\<lparr>mg_cases := cases\<rparr>))))"


section \<open>Notions used to state the properties\<close>

text \<open>
  The matches of the key-point scan, all of them, in the order sentence, then category,
  then keyword.
\<close>

definition keyPointMatches :: "string \<Rightarrow> key_point list" where
  "keyPointMatches text =
     [\<lparr>kp_category = category, kp_text = trim sentence, kp_importance = ''high''\<rparr>.
        sentence \<leftarrow> splitOn isDot text,
        (category, keywords) \<leftarrow> legalKeywords,
        keyword \<leftarrow> keywords,
        includesStr (toLowerCase sentence) keyword]"

text \<open>The number of places of a text at which a word occurs, and the sum over a list
  of words.\<close>

fun countSubstr :: "string \<Rightarrow> string \<Rightarrow> nat" where
  "countSubstr [] w = (if w = [] then 1 else 0)"
| "countSubstr (c # cs) w = (if prefix w (c # cs) then 1 else 0) + countSubstr cs w"

definition totalOccurrences :: "string \<Rightarrow> string list \<Rightarrow> nat" where
  "totalOccurrences text ws = sum_list (map (countSubstr text) ws)"

text \<open>The places at which a word stands as a whole word: it occurs there, under the
  flag \<open>i\<close>, with a word boundary on either side.\<close>

definition wholeWordAt :: "string \<Rightarrow> string \<Rightarrow> nat \<Rightarrow> bool" where
  "wholeWordAt text w i =
     wordMatchAt (0 < i \<and> isWordAt text (i - 1)) (drop i text) w"

definition wholeWordPlaces :: "string \<Rightarrow> string \<Rightarrow> nat list" where
  "wholeWordPlaces text w = filter (wholeWordAt text w) [0..<Suc (length text)]"

text \<open>
  The search of \<open>_countOccurrences\<close> skips the text of a match, so it counts every whole
  word place only if no two of them overlap. Two places \<open>k\<close> characters apart need a
  word that has a word boundary in front of its character \<open>k\<close> and goes on from there as
  it begins.
\<close>

definition overlapAt :: "string \<Rightarrow> nat \<Rightarrow> bool" where
  "overlapAt w k =
     (isWordChar (w ! (k - 1)) \<noteq> isWordChar (w ! k) \<and>
      matchesLiteral (take (length w - k) w) (drop k w))"

definition noSelfOverlap :: "string \<Rightarrow> bool" where
  "noSelfOverlap w = (filter (overlapAt w) [1..<length w] = [])"

text \<open>A whole word place of \<open>w\<close> at index \<open>i\<close> of a text that follows a word character
  (\<open>p\<close> true) or not.\<close>

definition placeAt :: "bool \<Rightarrow> string \<Rightarrow> string \<Rightarrow> nat \<Rightarrow> bool" where
  "placeAt p t w i = wordMatchAt (if i = 0 then p else isWordAt t (i - 1)) (drop i t) w"

definition isUpperAscii :: "char \<Rightarrow> bool" where
  "isUpperAscii c = (65 \<le> (of_char c :: nat) \<and> (of_char c :: nat) \<le> 90)"

text \<open>The \<open>memo\<close> entry of the registry, and the content the generator makes of it when
  the caller overrides nothing.\<close>

definition memoTemplate :: template where
  "memoTemplate =
     \<lparr>t_title = ''Legal Memorandum'',
      t_sections = [''To'', ''From'', ''Date'', ''Subject'', ''Issue'', ''Analysis'',
                    ''Conclusion'']\<rparr>"

definition memoContent :: "(nat \<Rightarrow> timestamp) \<Rightarrow> doc_content" where
  "memoContent dates =
     \<lparr>c_title = ''Legal Memorandum'',
      c_sections =
        map (\<lambda>(i, k). (k, \<lparr>sec_heading = k,
                              sec_content = Some (''[Add '' @ k @ '' content here]''),
                              sec_timestamp = dates i\<rparr>))
          (enumerate 0 (t_sections memoTemplate))\<rparr>"

text \<open>The lengths of the maximal runs of characters of a class, in their order.\<close>

function runs :: "(char \<Rightarrow> bool) \<Rightarrow> string \<Rightarrow> nat list" where
  "runs P [] = []"
| "runs P (c # cs) =
     (if P c then Suc (length (takeWhile P cs)) # runs P (dropWhile P cs) else runs P cs)"
  by pat_completeness auto
termination
  by (relation "measure (\<lambda>(P, t). length t)") (auto simp: less_Suc_eq_le length_dropWhile_le)

text \<open>
  Rounding as IEEE 754 prescribes it for binary64, the exponent range apart: \<open>r\<close> is the
  multiple of the unit in the last of 53 binary places of \<open>x\<close> that is nearest to \<open>x\<close>,
  the even multiple where two are equally near.
\<close>

definition nearest53 :: "rat \<Rightarrow> rat \<Rightarrow> bool" where
  "nearest53 x r =
     ((x = 0 \<and> r = 0) \<or>
      (\<exists>k m. 2 powi k \<le> \<bar>x\<bar> \<and> \<bar>x\<bar> < 2 powi (k + 1) \<and>
             r = of_int m * 2 powi (k - 52) \<and>
             2 * \<bar>r - x\<bar> \<le> 2 powi (k - 52) \<and>
             (2 * \<bar>r - x\<bar> < 2 powi (k - 52) \<or> even m)))"

text \<open>The readability formula in exact arithmetic, clamped.\<close>

definition exactEase :: "nat \<Rightarrow> nat \<Rightarrow> nat \<Rightarrow> rat" where
  "exactEase words sentences syllables =
     max 0 (min 100
       (206835 / 1000 - 1015 / 1000 * (of_nat words / of_nat sentences)
          - 846 / 10 * (of_nat syllables / of_nat words)))"

text \<open>A draft with the given title and section texts, for the examples.\<close>

definition draftWith :: "string \<Rightarrow> (string \<times> string) list \<Rightarrow> document" where
  "draftWith title texts =
     \<lparr>doc_id = ''d1'', doc_name = ''Draft'', doc_type = ''memo'', doc_caseId = None,
      doc_template = \<lparr>t_title = ''Draft'', t_sections = map fst texts\<rparr>,
      doc_content =
        \<lparr>c_title = title,
         c_sections =
           map (\<lambda>(k, c). (k, \<lparr>sec_heading = k, sec_content = Some c, sec_timestamp = 0\<rparr>))
             texts\<rparr>,
      doc_metadata =
        \<lparr>md_created = 0, md_modified = 0, md_author = ''System'', md_status = ''draft''\<rparr>,
      doc_version = 1, doc_tags = [], doc_analysis = None\<rparr>"


text \<open>Two texts of short words: 160 words, 7 sentences and 196 syllables, and 520 words,
  14 sentences and 637 syllables.\<close>

definition boundaryDraft :: document where
  "boundaryDraft =
     draftWith (concat (replicate 36 ''data '') @ concat (replicate 118 ''law '') @
                concat (replicate 5 ''law. '') @ ''law.'') []"

definition halfwayDraft :: document where
  "halfwayDraft =
     draftWith (concat (replicate 117 ''data '') @ concat (replicate 390 ''law '') @
                concat (replicate 12 ''law. '') @ ''law.'') []"

section \<open>Properties of the comparison\<close>

lemma newSet_fold:
  "distinct acc \<Longrightarrow>
   distinct (fold (\<lambda>x elems. if x \<in> set elems then elems else elems @ [x]) xs acc) \<and>
   set (fold (\<lambda>x elems. if x \<in> set elems then elems else elems @ [x]) xs acc) = set acc \<union> set xs"
  by (induction xs arbitrary: acc) auto

lemma distinct_newSet: "distinct (newSet xs)"
  using newSet_fold [of "[]" xs] by (simp add: newSet_def)

lemma set_newSet: "set (newSet xs) = set xs"
  using newSet_fold [of "[]" xs] by (simp add: newSet_def)

text \<open>The common words are counted once each: their number is the size of the
  intersection of the two token sets.\<close>

lemma commonWords_card:
  "sm_commonWords (findSimilarities doc1 doc2) =
   card (set (splitWs (toLowerCase (extractAllText doc1))) \<inter>
         set (splitWs (toLowerCase (extractAllText doc2))))"
proof -
  let ?A = "splitWs (toLowerCase (extractAllText doc1))"
  let ?B = "splitWs (toLowerCase (extractAllText doc2))"
  have "length (filter (\<lambda>word. word \<in> set (newSet ?B)) (newSet ?A)) =
        card ({w. w \<in> set ?B} \<inter> set ?A)"
    using distinct_length_filter [OF distinct_newSet, of "\<lambda>word. word \<in> set (newSet ?B)" ?A]
    by (simp add: set_newSet)
  then show ?thesis
    by (simp add: findSimilarities_def Let_def Int_commute)
qed

text \<open>
  Claim C7. When two documents have the same flattened text, \<open>commonWords\<close> is the
  number of distinct lower-case tokens of the white-space split of that text (of either
  document), and \<open>lengthDifference\<close> and \<open>wordCountDifference\<close> are both zero.
\<close>

theorem compare_identical_text:
  assumes "extractAllText doc1 = extractAllText doc2"
  shows "sm_commonWords (cmp_similarities (comparDocuments doc1 doc2)) =
           card (set (splitWs (toLowerCase (extractAllText doc1)))) \<and>
         sm_commonWords (cmp_similarities (comparDocuments doc1 doc2)) =
           card (set (splitWs (toLowerCase (extractAllText doc2)))) \<and>
         df_lengthDifference (cmp_differences (comparDocuments doc1 doc2)) = 0 \<and>
         df_wordCountDifference (cmp_differences (comparDocuments doc1 doc2)) = 0"
  using assms
  by (simp add: comparDocuments_def commonWords_card findDifferences_def absDiff_def)

text \<open>Two documents that differ in title and sections and have the flattened text
  \<open>a b\<close>: two common words, no difference.\<close>

theorem compare_identical_text_witness:
  "extractAllText (draftWith ''a b'' []) = extractAllText (draftWith ''a'' [(''x'', ''b'')]) \<and>
   sm_commonWords (cmp_similarities
     (comparDocuments (draftWith ''a b'' []) (draftWith ''a'' [(''x'', ''b'')]))) = 2 \<and>
   df_lengthDifference (cmp_differences
     (comparDocuments (draftWith ''a b'' []) (draftWith ''a'' [(''x'', ''b'')]))) = 0 \<and>
   df_wordCountDifference (cmp_differences
     (comparDocuments (draftWith ''a b'' []) (draftWith ''a'' [(''x'', ''b'')]))) = 0"
proof -
  have same: "extractAllText (draftWith ''a b'' []) =
              extractAllText (draftWith ''a'' [(''x'', ''b'')])"
    by (simp add: extractAllText_def draftWith_def orEmpty_def)
  have two: "card (set (splitWs (toLowerCase (extractAllText (draftWith ''a b'' []))))) = 2"
    by code_simp
  show ?thesis
    using compare_identical_text [OF same] same two by simp
qed

lemma absDiff_commute: "absDiff m n = absDiff n m"
  unfolding absDiff_def by linarith

lemma findDifferences_swapped:
  "df_lengthDifference (findDifferences a b) = df_lengthDifference (findDifferences b a) \<and>
   df_wordCountDifference (findDifferences a b) = df_wordCountDifference (findDifferences b a)"
  unfolding findDifferences_def Let_def differences.simps
  by (intro conjI absDiff_commute)

lemma findSimilarities_swapped:
  "sm_commonWords (findSimilarities a b) = sm_commonWords (findSimilarities b a)"
  unfolding commonWords_card by (rule arg_cong [where f = card]) (rule Int_commute)

text \<open>
  Claim C10. Comparing in the other order gives the same \<open>commonWords\<close>, the same
  \<open>lengthDifference\<close> and \<open>wordCountDifference\<close>, and the two section counts exchanged.
\<close>

theorem compare_swapped:
  "sm_commonWords (cmp_similarities (comparDocuments a b)) =
     sm_commonWords (cmp_similarities (comparDocuments b a)) \<and>
   df_lengthDifference (cmp_differences (comparDocuments a b)) =
     df_lengthDifference (cmp_differences (comparDocuments b a)) \<and>
   df_wordCountDifference (cmp_differences (comparDocuments a b)) =
     df_wordCountDifference (cmp_differences (comparDocuments b a)) \<and>
   sd_doc1Sections (cmp_structuralDifferences (comparDocuments a b)) =
     sd_doc2Sections (cmp_structuralDifferences (comparDocuments b a)) \<and>
   sd_doc2Sections (cmp_structuralDifferences (comparDocuments a b)) =
     sd_doc1Sections (cmp_structuralDifferences (comparDocuments b a))"
  unfolding comparDocuments_def comparison.simps
  using findSimilarities_swapped [of a b] findDifferences_swapped [of a b]
  by (simp only: compareStructure_def structural_differences.simps simp_thms)

section \<open>Properties of the generator\<close>

text \<open>
  Claim C9. \<open>updateDocument\<close> adds exactly one to \<open>version\<close> and sets \<open>metadata.modified\<close>
  to the date read at the call; \<open>id\<close> and \<open>metadata.created\<close> stay as they were.
\<close>

theorem update_document_frame:
  "doc_version (updateDocument now d u) = doc_version d + 1 \<and>
   md_modified (doc_metadata (updateDocument now d u)) = now \<and>
   doc_id (updateDocument now d u) = doc_id d \<and>
   md_created (doc_metadata (updateDocument now d u)) = md_created (doc_metadata d)"
  by (simp add: updateDocument_def)

subsection \<open>Unknown document types\<close>

lemma generate_unknown_type:
  assumes "map_of registry t = None" and "t \<notin> set objectPrototypeKeys"
  shows "generate e registry
           \<lparr>opt_caseId = cid, opt_documentType = Some t, opt_content = c, opt_timestamp = ts\<rparr> =
         Inl (UnknownDocumentType t)"
  using assms by (simp add: generate_def getTemplate_def)

lemma generate_not_own_key_fails:
  assumes "map_of registry t = None"
  shows "\<exists>err. generate e registry
           \<lparr>opt_caseId = cid, opt_documentType = Some t, opt_content = c, opt_timestamp = ts\<rparr> =
         Inl err"
  using assms by (simp add: generate_def getTemplate_def)

text \<open>Whatever the error is, a type that is no key of the registry leaves the facade as
  it was: no document is stored and no case is touched.\<close>

lemma createDocument_not_own_key:
  assumes "map_of (mg_templates m) t = None"
  shows "\<exists>err. createDocument e now later cid (Some t) c m = (Inl err, m)"
  using generate_not_own_key_fails [OF assms, of e cid c "Some now"]
  by (auto simp: createDocument_def)

text \<open>
  Claim C8 says that a \<open>documentType\<close> that is no key of the registry makes \<open>generate\<close>
  fail with the error that names the unknown type, and that no document is created. The
  guard \<open>!this.templates[documentType]\<close> does not hold for a name that the registry
  inherits from \<open>Object.prototype\<close>: for \<open>constructor\<close>, which is no key of the registry,
  \<open>generate\<close> goes on and fails in \<open>_generateContent\<close> with a \<open>TypeError\<close> that does not
  name the type. No document is created there either.
\<close>

theorem generate_inherited_key:
  "map_of templates ''constructor'' = None \<and>
   generate e templates
     \<lparr>opt_caseId = cid, opt_documentType = Some ''constructor'', opt_content = c,
      opt_timestamp = ts\<rparr> =
     Inl (TypeError ''Cannot read properties of undefined (reading forEach)'') \<and>
   createDocument e now later cid (Some ''constructor'') c (m\<lparr>mg_templates := templates\<rparr>) =
     (Inl (TypeError ''Cannot read properties of undefined (reading forEach)''),
      m\<lparr>mg_templates := templates\<rparr>)"
  by (simp add: generate_def createDocument_def getTemplate_def templates_def
      objectPrototypeKeys_def)

subsection \<open>A memo without overrides\<close>

lemma getTemplate_memo: "getTemplate templates ''memo'' = Own memoTemplate"
  by (simp add: getTemplate_def templates_def memoTemplate_def)

lemma generateContent_memo:
  "generateContent e memoTemplate \<lparr>cd_fields = [], cd_tags = tags\<rparr> = memoContent (env_dates e)"
  by (simp add: generateContent_def memoTemplate_def memoContent_def orElse_def placeholder_def)

lemma generate_memo:
  "\<exists>d. generate e templates
          \<lparr>opt_caseId = cid,
           opt_documentType = (if explicit then Some ''memo'' else None),
           opt_content = (if given then Some \<lparr>cd_fields = [], cd_tags = tags\<rparr> else None),
           opt_timestamp = ts\<rparr> = Inr d \<and>
        doc_content d = memoContent (env_dates e)"
  by (simp add: generate_def getTemplate_memo generateContent_memo Let_def)

lemma memo_text:
  "doc_content d = memoContent dates \<Longrightarrow>
   extractAllText d = ''Legal Memorandum [Add To content here] [Add From content here] [Add Date content here] [Add Subject content here] [Add Issue content here] [Add Analysis content here] [Add Conclusion content here]''"
  by (simp add: extractAllText_def memoContent_def memoTemplate_def orEmpty_def)

lemma memo_risks:
  assumes "doc_content d = memoContent dates"
  shows "identifyRisks d = [incompleteContent]"
proof -
  have low: "toLowerCase ''Legal Memorandum [Add To content here] [Add From content here] [Add Date content here] [Add Subject content here] [Add Issue content here] [Add Analysis content here] [Add Conclusion content here]'' = ''legal memorandum [add to content here] [add from content here] [add date content here] [add subject content here] [add issue content here] [add analysis content here] [add conclusion content here]''"
    by code_simp
  show ?thesis
    unfolding identifyRisks_def memo_text [OF assms] Let_def low
    by simp
qed

lemma memo_structure:
  assumes "doc_content d = memoContent dates"
  shows "\<exists>st. analyzeStructure d = Inr st \<and>
     map (\<lambda>s. (ss_name s, ss_isEmpty s)) (st_sections st) =
     map (\<lambda>k. (k, True)) (t_sections memoTemplate)"
  by (simp add: analyzeStructure_def assms memoContent_def memoTemplate_def sectionStat_def)

text \<open>
  Claim C5. \<open>generate\<close> for the type \<open>memo\<close> (named, or taken by default) and a content
  without overrides (none, or one without string properties) gives a document whose
  sections are To, From, Date, Subject, Issue, Analysis and Conclusion, each with the
  content \<open>[Add <name> content here]\<close>; its analysis has the risk \<open>incomplete_content\<close> of
  severity \<open>high\<close> (and no other), and a structure report with \<open>isEmpty\<close> true for each
  of the seven sections.
\<close>

theorem memo_without_overrides:
  "\<exists>d a. generate e templates
            \<lparr>opt_caseId = cid,
             opt_documentType = (if explicit then Some ''memo'' else None),
             opt_content = (if given then Some \<lparr>cd_fields = [], cd_tags = tags\<rparr> else None),
             opt_timestamp = ts\<rparr> = Inr d \<and>
     map (\<lambda>(k, s). (k, sec_content s)) (c_sections (doc_content d)) =
       map (\<lambda>k. (k, Some (''[Add '' @ k @ '' content here]'')))
         [''To'', ''From'', ''Date'', ''Subject'', ''Issue'', ''Analysis'', ''Conclusion''] \<and>
     analyze now d = Inr a \<and>
     an_risks a =
       [\<lparr>rk_type = ''incomplete_content'', rk_severity = ''high'',
         rk_description = ''Document contains placeholder text that needs to be filled''\<rparr>] \<and>
     map (\<lambda>s. (ss_name s, ss_isEmpty s)) (st_sections (an_sections a)) =
       map (\<lambda>k. (k, True))
         [''To'', ''From'', ''Date'', ''Subject'', ''Issue'', ''Analysis'', ''Conclusion'']"
proof -
  obtain d where gen: "generate e templates
            \<lparr>opt_caseId = cid,
             opt_documentType = (if explicit then Some ''memo'' else None),
             opt_content = (if given then Some \<lparr>cd_fields = [], cd_tags = tags\<rparr> else None),
             opt_timestamp = ts\<rparr> = Inr d"
    and content: "doc_content d = memoContent (env_dates e)"
    using generate_memo by blast
  obtain st where st: "analyzeStructure d = Inr st"
    and empty: "map (\<lambda>s. (ss_name s, ss_isEmpty s)) (st_sections st) =
                map (\<lambda>k. (k, True)) (t_sections memoTemplate)"
    using memo_structure [OF content] by blast
  have sections: "map (\<lambda>(k, s). (k, sec_content s)) (c_sections (doc_content d)) =
       map (\<lambda>k. (k, Some (''[Add '' @ k @ '' content here]'')))
         [''To'', ''From'', ''Date'', ''Subject'', ''Issue'', ''Analysis'', ''Conclusion'']"
    by (simp add: content memoContent_def memoTemplate_def)
  have risks: "identifyRisks d =
       [\<lparr>rk_type = ''incomplete_content'', rk_severity = ''high'',
         rk_description = ''Document contains placeholder text that needs to be filled''\<rparr>]"
    using memo_risks [OF content] by (simp add: incompleteContent_def)
  show ?thesis
    using gen sections risks empty
    by (simp add: analyze_def st memoTemplate_def)
qed

section \<open>Properties of the analyzer\<close>

lemma includesStr_sublist: "includesStr t w = sublist w t"
  by (induction t) (auto simp: sublist_Cons_right)

lemma fold_pushKeyPoint:
  "fold (pushKeyPoint sentence category) kws acc =
   acc @ [\<lparr>kp_category = category, kp_text = trim sentence, kp_importance = ''high''\<rparr>.
            keyword \<leftarrow> kws, includesStr (toLowerCase sentence) keyword]"
  by (induction kws arbitrary: acc) (auto simp: pushKeyPoint_def)

lemma fold_categories:
  "fold (\<lambda>(category, kws). fold (pushKeyPoint sentence category) kws) cats acc =
   acc @ [\<lparr>kp_category = category, kp_text = trim sentence, kp_importance = ''high''\<rparr>.
            (category, kws) \<leftarrow> cats, keyword \<leftarrow> kws,
            includesStr (toLowerCase sentence) keyword]"
  by (induction cats arbitrary: acc) (auto simp: fold_pushKeyPoint)

lemma fold_sentences:
  "fold (\<lambda>sentence.
           fold (\<lambda>(category, kws). fold (pushKeyPoint sentence category) kws) cats)
     sentences acc =
   acc @ [\<lparr>kp_category = category, kp_text = trim sentence, kp_importance = ''high''\<rparr>.
            sentence \<leftarrow> sentences, (category, kws) \<leftarrow> cats, keyword \<leftarrow> kws,
            includesStr (toLowerCase sentence) keyword]"
  by (induction sentences arbitrary: acc) (auto simp: fold_categories)

text \<open>
  Claim C6. The key points are the first ten (or all, when there are fewer) of the
  matches met when the sentences of the split at \<open>.\<close> are scanned in their order, the
  categories obligations, rights, penalties, dates, parties in theirs, and the keywords
  of a category in theirs; a match is a keyword contained in the lower-cased sentence
  and yields the category, the trimmed sentence and the importance \<open>high\<close>. So the list
  never has more than ten elements.
\<close>

theorem key_points_first_ten:
  "extractKeyPoints d = take 10 (keyPointMatches (extractAllText d)) \<and>
   length (extractKeyPoints d) \<le> 10 \<and>
   map fst legalKeywords = [''obligations'', ''rights'', ''penalties'', ''dates'', ''parties'']"
proof -
  have "extractKeyPoints d = take 10 (keyPointMatches (extractAllText d))"
    by (simp add: extractKeyPoints_def keyPointMatches_def fold_sentences)
  moreover have "map fst legalKeywords =
      [''obligations'', ''rights'', ''penalties'', ''dates'', ''parties'']"
    by (simp add: legalKeywords_def)
  ultimately show ?thesis by simp
qed


subsection \<open>Legal terms\<close>

lemma insertBy_insort:
  "insertBy byOccurrences x ys = insort_key (\<lambda>e. - int (lt_occurrences e)) x ys"
  by (induction ys) (auto simp: byOccurrences_def)

lemma sortBy_sort_key:
  "sortBy byOccurrences xs = sort_key (\<lambda>e. - int (lt_occurrences e)) xs"
  by (induction xs) (simp_all add: sortBy_def insertBy_insort)

lemma fold_pushTerm:
  "fold (pushTerm lowered) ts acc =
   acc @ [\<lparr>lt_term = t, lt_occurrences = countOccurrences lowered t\<rparr>.
            t \<leftarrow> ts, sublist t lowered]"
  by (induction ts arbitrary: acc) (auto simp: pushTerm_def includesStr_sublist)

lemma concat_map_if: "concat (map (\<lambda>t. if P t then [f t] else []) ts) = map f (filter P ts)"
  by (induction ts) auto

lemma extractLegalTerms_sort:
  "extractLegalTerms d =
   sort_key (\<lambda>e. - int (lt_occurrences e))
     (map (\<lambda>t. \<lparr>lt_term = t,
                 lt_occurrences = countOccurrences (toLowerCase (extractAllText d)) t\<rparr>)
        (filter (\<lambda>t. sublist t (toLowerCase (extractAllText d))) commonLegalTerms))"
  by (simp add: extractLegalTerms_def Let_def fold_pushTerm sortBy_sort_key concat_map_if)

lemma filter_entries:
  "filter (\<lambda>e. lt_occurrences e = k)
     (map (\<lambda>t. \<lparr>lt_term = t, lt_occurrences = c t\<rparr>) (filter P ts)) =
   map (\<lambda>t. \<lparr>lt_term = t, lt_occurrences = k\<rparr>) (filter (\<lambda>t. P t \<and> c t = k) ts)"
  by (induction ts) auto

text \<open>
  What \<open>_countOccurrences\<close> returns for a term of the list is the number of places at
  which the term stands as a whole word: no term of the list overlaps itself.
\<close>

lemma terms_noSelfOverlap: "filter (\<lambda>w. \<not> noSelfOverlap w \<or> w = []) commonLegalTerms = []"
  by code_simp

lemma of_char_upperAscii:
  "(of_char (upperAscii c) :: nat) =
   (if 97 \<le> (of_char c :: nat) \<and> (of_char c :: nat) \<le> 122 then of_char c - 32 else of_char c)"
  by (auto simp add: upperAscii_def Let_def)

lemma isWordChar_upperAscii: "isWordChar (upperAscii c) = isWordChar c"
  unfolding isWordChar_def Let_def of_char_upperAscii by auto

lemma isWordChar_cong: "upperAscii a = upperAscii b \<Longrightarrow> isWordChar a = isWordChar b"
  by (metis isWordChar_upperAscii)

lemma matchesLiteral_prefix: "matchesLiteral w t = prefix (map upperAscii w) (map upperAscii t)"
  by (induction w t rule: matchesLiteral.induct) auto


lemma isWordAt_drop: "isWordAt (drop n t) j = isWordAt t (n + j)"
  by (auto simp: isWordAt_def)

lemma placeAt_shift:
  assumes "0 < n"
  shows "placeAt p t w (n + i) = placeAt (isWordAt t (n - 1)) (drop n t) w i"
proof (cases i)
  case 0
  with assms show ?thesis by (simp add: placeAt_def)
next
  case (Suc j)
  have "isWordAt (drop n t) j = isWordAt t (n + j)"
    by (rule isWordAt_drop)
  with Suc assms show ?thesis
    by (simp add: placeAt_def add.commute)
qed

lemma count_places_split:
  assumes "n \<le> length t"
  shows "[0..<Suc (length t)] = [0..<n] @ map (\<lambda>i. n + i) [0..<Suc (length t - n)]"
proof -
  have "[0..<Suc (length t)] = [0..<n] @ [n..<Suc (length t)]"
    using assms by (metis le_SucI upt_add_eq_append le_add_diff_inverse zero_le add_0)
  moreover have "[n..<Suc (length t)] = map (\<lambda>i. n + i) [0..<Suc (length t - n)]"
    using assms by (simp add: map_add_upt Suc_diff_le add.commute)
  ultimately show ?thesis by simp
qed


lemma length_le_of_match: "matchesLiteral w t \<Longrightarrow> length w \<le> length t"
  by (induction w t rule: matchesLiteral.induct) auto

lemma match_nth:
  "matchesLiteral w t \<Longrightarrow> j < length w \<Longrightarrow> upperAscii (w ! j) = upperAscii (t ! j)"
proof (induction w t arbitrary: j rule: matchesLiteral.induct)
  case (3 p ps c cs)
  then show ?case by (cases j) auto
qed auto

lemma match_isWordAt:
  assumes "matchesLiteral w t" and "j < length w"
  shows "isWordAt t j = isWordChar (w ! j)"
  using length_le_of_match [OF assms(1)] match_nth [OF assms] assms(2)
  by (auto simp: isWordAt_def dest: isWordChar_cong)

lemma overlap_of_two_matches:
  assumes "matchesLiteral w t" and "matchesLiteral w (drop k t)"
  shows "matchesLiteral (take (length w - k) w) (drop k w)"
proof -
  let ?a = "map upperAscii w" and ?b = "map upperAscii t"
  have a: "?a = take (length w) ?b"
    using assms(1) unfolding matchesLiteral_prefix
    by (metis append_eq_conv_conj length_map prefix_def)
  have b: "?a = take (length w) (drop k ?b)"
    using assms(2) unfolding matchesLiteral_prefix drop_map
    by (metis append_eq_conv_conj length_map prefix_def)
  have "drop k ?a = take (length w - k) (drop k ?b)"
    by (subst a) (simp add: drop_take)
  moreover have "take (length w - k) ?a = take (length w - k) (drop k ?b)"
    by (subst b) (simp add: min_def)
  ultimately have "take (length w - k) ?a = drop k ?a"
    by simp
  then show ?thesis
    unfolding matchesLiteral_prefix by (simp add: take_map drop_map)
qed

lemma no_place_inside:
  assumes "noSelfOverlap w" and "wordMatchAt p t w" and "0 < k" and "k < length w"
  shows "\<not> placeAt p t w k"
proof
  assume place: "placeAt p t w k"
  have m0: "matchesLiteral w t"
    using assms(2) by (simp add: wordMatchAt_def)
  have mk: "matchesLiteral w (drop k t)"
    and bound: "isWordAt t (k - 1) \<noteq> isWordAt (drop k t) 0"
    using place assms(3) by (simp_all add: placeAt_def wordMatchAt_def)
  have "isWordAt t (k - 1) = isWordChar (w ! (k - 1))"
    using match_isWordAt [OF m0, of "k - 1"] assms(3,4) by simp
  moreover have "isWordAt (drop k t) 0 = isWordChar (w ! k)"
    using match_isWordAt [OF m0, of k] assms(4) by (simp add: isWordAt_drop)
  ultimately have "overlapAt w k"
    using bound overlap_of_two_matches [OF m0 mk] by (simp add: overlapAt_def)
  moreover have "k \<in> set [1..<length w]"
    using assms(3,4) by simp
  ultimately show False
    using assms(1) unfolding noSelfOverlap_def filter_empty_conv by blast
qed

lemma placeAt_0: "placeAt p t w 0 = wordMatchAt p t w"
  by (simp add: placeAt_def)

lemma length_filter_shift:
  "length (filter P (map (\<lambda>i. n + i) xs)) = length (filter (\<lambda>i. P (n + i)) xs)"
  by (induction xs) auto

lemma countFrom_places:
  assumes "noSelfOverlap w" and "w \<noteq> []"
  shows "countFrom p t w = length (filter (placeAt p t w) [0..<Suc (length t)])"
  using assms
proof (induction p t w rule: countFrom.induct)
  case (1 p w)
  then show ?case by (simp add: placeAt_0)
next
  case (2 p c cs w)
  let ?t = "c # cs"
  show ?case
  proof (cases "wordMatchAt p ?t w")
    case False
    have split: "[0..<Suc (length ?t)] = [0..<1] @ map (\<lambda>i. 1 + i) [0..<Suc (length ?t - 1)]"
      by (rule count_places_split) simp
    have shift: "placeAt p ?t w (1 + i) = placeAt (isWordChar c) cs w i" for i
      using placeAt_shift [of 1 p ?t w i] by (simp add: isWordAt_def)
    have "countFrom p ?t w = countFrom (isWordChar c) cs w"
      using False by simp
    also have "\<dots> = length (filter (placeAt (isWordChar c) cs w) [0..<Suc (length cs)])"
      using "2.IH"(3) [OF False] "2.prems" by simp
    also have "\<dots> = length (filter (placeAt p ?t w) [0..<Suc (length ?t)])"
      using False unfolding split filter_append length_append length_filter_shift shift
      by (simp add: placeAt_0)
    finally show ?thesis .
  next
    case True
    let ?L = "length w"
    have le: "?L \<le> length ?t"
      using True length_le_of_match [of w ?t] by (simp add: wordMatchAt_def)
    have pos: "0 < ?L"
      using "2.prems" by simp
    have split: "[0..<Suc (length ?t)] =
                 [0..<?L] @ map (\<lambda>i. ?L + i) [0..<Suc (length ?t - ?L)]"
      by (rule count_places_split) (rule le)
    have shift: "placeAt p ?t w (?L + i) = placeAt (isWordAt ?t (?L - 1)) (drop ?L ?t) w i" for i
      by (rule placeAt_shift) (rule pos)
    have inside: "filter (placeAt p ?t w) [1..<?L] = []"
      using no_place_inside [OF "2.prems"(1) True] by (auto simp: filter_empty_conv)
    have "[0..<?L] = 0 # [1..<?L]"
      using pos by (simp add: upt_rec)
    then have first: "filter (placeAt p ?t w) [0..<?L] = [0]"
      using True inside by (simp add: placeAt_0)
    have "countFrom p ?t w = Suc (countFrom (isWordAt ?t (?L - 1)) (drop ?L ?t) w)"
      using True "2.prems" by simp
    also have "countFrom (isWordAt ?t (?L - 1)) (drop ?L ?t) w =
               length (filter (placeAt (isWordAt ?t (?L - 1)) (drop ?L ?t) w)
                         [0..<Suc (length (drop ?L ?t))])"
      using "2.IH"(2) [OF True] "2.prems" by simp
    finally show ?thesis
      unfolding split filter_append length_append length_filter_shift shift first
      by simp
  qed
qed

lemma wholeWordAt_placeAt: "wholeWordAt t w = placeAt False t w"
  by (auto simp: wholeWordAt_def placeAt_def fun_eq_iff)

lemma countOccurrences_places:
  assumes "noSelfOverlap w" and "w \<noteq> []"
  shows "countOccurrences t w = length (wholeWordPlaces t w)"
  unfolding countOccurrences_def wholeWordPlaces_def wholeWordAt_placeAt
  by (rule countFrom_places [OF assms])

lemma legal_term_occurrences:
  assumes "w \<in> set commonLegalTerms"
  shows "countOccurrences t w = length (wholeWordPlaces t w)"
proof -
  have "\<forall>x \<in> set commonLegalTerms. \<not> (\<not> noSelfOverlap x \<or> x = [])"
    using terms_noSelfOverlap unfolding filter_empty_conv .
  with assms have "noSelfOverlap w" and "w \<noteq> []"
    by blast+
  then show ?thesis
    by (rule countOccurrences_places)
qed


lemma terms_lower_case: "filter (\<lambda>w. filter isUpperAscii w \<noteq> []) commonLegalTerms = []"
  by code_simp

lemma lowerChar_not_upper: "\<not> isUpperAscii (lowerChar c)"
  by (auto simp: lowerChar_def isUpperAscii_def Let_def)

lemma toLowerCase_not_upper: "filter isUpperAscii (toLowerCase s) = []"
  by (simp add: toLowerCase_def filter_empty_conv lowerChar_not_upper)

lemma upperAscii_inj:
  assumes "upperAscii a = upperAscii b" and "\<not> isUpperAscii a" and "\<not> isUpperAscii b"
  shows "a = b"
proof -
  define m n where "m = (of_char a :: nat)" and "n = (of_char b :: nat)"
  have "(of_char (upperAscii a) :: nat) = of_char (upperAscii b)"
    using assms(1) by simp
  then have "(if 97 \<le> m \<and> m \<le> 122 then m - 32 else m) =
             (if 97 \<le> n \<and> n \<le> 122 then n - 32 else n)"
    unfolding of_char_upperAscii m_def n_def .
  moreover have "\<not> (65 \<le> m \<and> m \<le> 90)" and "\<not> (65 \<le> n \<and> n \<le> 90)"
    using assms(2,3) by (simp_all add: isUpperAscii_def m_def n_def)
  ultimately have "m = n"
    by (simp split: if_splits) linarith+
  then show ?thesis
    by (simp add: m_def n_def)
qed

lemma match_lower_prefix:
  "matchesLiteral w t \<Longrightarrow> \<forall>c \<in> set w. \<not> isUpperAscii c \<Longrightarrow>
   \<forall>c \<in> set t. \<not> isUpperAscii c \<Longrightarrow> prefix w t"
proof (induction w t rule: matchesLiteral.induct)
  case (3 p ps c cs)
  then show ?case
    by (auto dest: upperAscii_inj)
qed auto

lemma whole_word_is_substring:
  assumes "w \<in> set commonLegalTerms" and "wholeWordPlaces (toLowerCase s) w \<noteq> []"
  shows "sublist w (toLowerCase s)"
proof -
  obtain i where "wholeWordAt (toLowerCase s) w i"
    using assms(2) unfolding wholeWordPlaces_def filter_empty_conv by blast
  then have m: "matchesLiteral w (drop i (toLowerCase s))"
    by (simp add: wholeWordAt_def wordMatchAt_def)
  have "\<forall>x \<in> set commonLegalTerms. \<not> filter isUpperAscii x \<noteq> []"
    using terms_lower_case unfolding filter_empty_conv .
  with assms(1) have lw: "\<forall>c \<in> set w. \<not> isUpperAscii c"
    unfolding filter_empty_conv by blast
  have "\<forall>c \<in> set (drop i (toLowerCase s)). \<not> isUpperAscii c"
    using toLowerCase_not_upper [of s] unfolding filter_empty_conv
    by (meson in_set_dropD)
  with m lw have "prefix w (drop i (toLowerCase s))"
    by (rule match_lower_prefix)
  then obtain r where "drop i (toLowerCase s) = w @ r"
    by (auto simp: prefix_def)
  then have "toLowerCase s = take i (toLowerCase s) @ w @ r"
    by (metis append_take_drop_id)
  then show ?thesis
    unfolding sublist_def by blast
qed

text \<open>
  Claim C1 says that a term has an entry exactly when it stands in the text as a whole
  word. The test that admits a term is \<open>contentText.includes(term)\<close>, a plain substring
  test, and only the count uses the word boundaries: the title \<open>Agreements\<close> gives the
  entry for \<open>agreement\<close> with no occurrence, while the term stands nowhere as a whole
  word.
\<close>

theorem legal_terms_entry_without_whole_word:
  "extractLegalTerms (draftWith ''Agreements'' []) =
     [\<lparr>lt_term = ''agreement'', lt_occurrences = 0\<rparr>] \<and>
   wholeWordPlaces (toLowerCase (extractAllText (draftWith ''Agreements'' []))) ''agreement'' = []"
  by code_simp

text \<open>
  Claim C1, amended. The entries are those of the terms of the fixed list of 15 that
  occur in the lower-cased flattened text as a substring, one entry for each; so every
  term that stands there as a whole word has an entry, and so has a term that only
  occurs inside a longer word. \<open>occurrences\<close> is the number of places at which the term
  stands as a whole word, which can be 0. The list is sorted by descending occurrences,
  and the entries with the same number \<open>k\<close> of occurrences stand in the order of the
  fixed list.
\<close>

theorem legal_terms_by_substring:
  "set (extractLegalTerms d) =
     (\<lambda>t. \<lparr>lt_term = t,
            lt_occurrences = length (wholeWordPlaces (toLowerCase (extractAllText d)) t)\<rparr>) `
       {t \<in> set commonLegalTerms. sublist t (toLowerCase (extractAllText d))} \<and>
   {t \<in> set commonLegalTerms. wholeWordPlaces (toLowerCase (extractAllText d)) t \<noteq> []}
     \<subseteq> lt_term ` set (extractLegalTerms d) \<and>
   distinct (map lt_term (extractLegalTerms d)) \<and>
   sorted_wrt (\<lambda>a b. lt_occurrences b \<le> lt_occurrences a) (extractLegalTerms d) \<and>
   filter (\<lambda>e. lt_occurrences e = k) (extractLegalTerms d) =
     map (\<lambda>t. \<lparr>lt_term = t, lt_occurrences = k\<rparr>)
       (filter (\<lambda>t. sublist t (toLowerCase (extractAllText d)) \<and>
                     length (wholeWordPlaces (toLowerCase (extractAllText d)) t) = k)
          commonLegalTerms) \<and>
   length commonLegalTerms = 15"
proof -
  define lowered where "lowered = toLowerCase (extractAllText d)"
  define entry where
    "entry = (\<lambda>t. \<lparr>lt_term = t, lt_occurrences = length (wholeWordPlaces lowered t)\<rparr>)"
  define found where "found = map entry (filter (\<lambda>t. sublist t lowered) commonLegalTerms)"
  have count: "countOccurrences lowered t = length (wholeWordPlaces lowered t)"
    if "t \<in> set commonLegalTerms" for t
    using that by (rule legal_term_occurrences)
  have "map (\<lambda>t. \<lparr>lt_term = t, lt_occurrences = countOccurrences lowered t\<rparr>)
          (filter (\<lambda>t. sublist t lowered) commonLegalTerms) = found"
    unfolding found_def entry_def by (rule map_cong) (auto simp: count)
  then have sorted_found: "extractLegalTerms d = sort_key (\<lambda>e. - int (lt_occurrences e)) found"
    by (simp add: extractLegalTerms_sort lowered_def)
  have dist: "distinct commonLegalTerms"
    by (simp add: commonLegalTerms_def)
  have term_entry: "lt_term \<circ> entry = id"
    by (auto simp: entry_def)
  have 1: "set (extractLegalTerms d) = entry ` {t \<in> set commonLegalTerms. sublist t lowered}"
    by (auto simp: sorted_found found_def)
  have 2: "{t \<in> set commonLegalTerms. wholeWordPlaces lowered t \<noteq> []}
             \<subseteq> lt_term ` set (extractLegalTerms d)"
  proof
    fix t
    assume "t \<in> {t \<in> set commonLegalTerms. wholeWordPlaces lowered t \<noteq> []}"
    then have "t \<in> set commonLegalTerms" and "sublist t lowered"
      using whole_word_is_substring [of t "extractAllText d"] by (simp_all add: lowered_def)
    then have "entry t \<in> set (extractLegalTerms d)"
      unfolding 1 by blast
    moreover have "lt_term (entry t) = t"
      by (simp add: entry_def)
    ultimately show "t \<in> lt_term ` set (extractLegalTerms d)"
      by (metis imageI)
  qed
  have "distinct (map lt_term found)"
    using dist by (simp add: found_def term_entry distinct_map_filter)
  then have "distinct (map lt_term (sort_key (\<lambda>e. - int (lt_occurrences e)) found))"
    by (metis distinct_map distinct_sort set_sort)
  then have 4: "distinct (map lt_term (extractLegalTerms d))"
    by (simp add: sorted_found)
  have "sorted (map (\<lambda>e. - int (lt_occurrences e)) (extractLegalTerms d))"
    unfolding sorted_found by (rule sorted_sort_key)
  then have 5: "sorted_wrt (\<lambda>a b. lt_occurrences b \<le> lt_occurrences a) (extractLegalTerms d)"
    by (simp add: sorted_map)
  have "filter (\<lambda>e. lt_occurrences e = k) (extractLegalTerms d) =
        filter (\<lambda>e. lt_occurrences e = k) found"
  proof -
    have "filter (\<lambda>e. - int (lt_occurrences e) = - int k) (extractLegalTerms d) =
          filter (\<lambda>e. - int (lt_occurrences e) = - int k) found"
      unfolding sorted_found by (rule sort_key_stable)
    then show ?thesis by simp
  qed
  also have "\<dots> = map (\<lambda>t. \<lparr>lt_term = t, lt_occurrences = k\<rparr>)
       (filter (\<lambda>t. sublist t lowered \<and> length (wholeWordPlaces lowered t) = k)
          commonLegalTerms)"
    unfolding found_def entry_def by (rule filter_entries)
  finally have 6: "filter (\<lambda>e. lt_occurrences e = k) (extractLegalTerms d) =
     map (\<lambda>t. \<lparr>lt_term = t, lt_occurrences = k\<rparr>)
       (filter (\<lambda>t. sublist t lowered \<and> length (wholeWordPlaces lowered t) = k)
          commonLegalTerms)" .
  have 7: "length commonLegalTerms = 15"
    by (simp add: commonLegalTerms_def)
  show ?thesis
    using 1 2 4 5 6 7 unfolding lowered_def entry_def by blast
qed

subsection \<open>Sentiment\<close>

lemma length_filter_card:
  "distinct xs \<Longrightarrow> length (filter P xs) = card {x \<in> set xs. P x}"
  by (simp add: distinct_length_filter Int_def conj_commute)

text \<open>
  Claim C2 says that the two indicators are numbers of occurrences. They are the numbers
  of listed words that occur at all: in \<open>agree agree breach\<close> the positive words occur
  twice and the negative words once, and both indicators are 1, which makes the text
  neutral.
\<close>

theorem sentiment_counts_words_once:
  "totalOccurrences (toLowerCase (extractAllText (draftWith ''agree agree breach'' [])))
     positiveWords = 2 \<and>
   totalOccurrences (toLowerCase (extractAllText (draftWith ''agree agree breach'' [])))
     negativeWords = 1 \<and>
   sn_positiveIndicators (analyzeSentiment (draftWith ''agree agree breach'' [])) = 1 \<and>
   sn_negativeIndicators (analyzeSentiment (draftWith ''agree agree breach'' [])) = 1 \<and>
   sn_overall (analyzeSentiment (draftWith ''agree agree breach'' [])) = ''neutral''"
  by code_simp

text \<open>
  Claim C2, amended. \<open>positiveIndicators\<close> is the number of the 5 positive words that
  occur in the lower-cased flattened text as a substring, each word counted once, and
  \<open>negativeIndicators\<close> the same for the 5 negative words; \<open>overall\<close> is \<open>positive\<close> when
  the first number is the greater, \<open>negative\<close> when the second is, and \<open>neutral\<close> when
  they are equal.
\<close>

theorem sentiment_by_words_present:
  "sn_positiveIndicators (analyzeSentiment d) =
     card {w \<in> set positiveWords. sublist w (toLowerCase (extractAllText d))} \<and>
   sn_negativeIndicators (analyzeSentiment d) =
     card {w \<in> set negativeWords. sublist w (toLowerCase (extractAllText d))} \<and>
   (sn_overall (analyzeSentiment d) = ''positive'') =
     (sn_negativeIndicators (analyzeSentiment d) < sn_positiveIndicators (analyzeSentiment d)) \<and>
   (sn_overall (analyzeSentiment d) = ''negative'') =
     (sn_positiveIndicators (analyzeSentiment d) < sn_negativeIndicators (analyzeSentiment d)) \<and>
   (sn_overall (analyzeSentiment d) = ''neutral'') =
     (sn_positiveIndicators (analyzeSentiment d) = sn_negativeIndicators (analyzeSentiment d)) \<and>
   length positiveWords = 5 \<and> length negativeWords = 5"
proof -
  have dp: "distinct positiveWords" and dn: "distinct negativeWords"
    by (simp_all add: positiveWords_def negativeWords_def)
  have lp: "length positiveWords = 5" and ln: "length negativeWords = 5"
    by (simp_all add: positiveWords_def negativeWords_def)
  show ?thesis
    unfolding analyzeSentiment_def Let_def sentiment.simps includesStr_sublist
      length_filter_card [OF dp] length_filter_card [OF dn] lp ln
    by auto
qed

text \<open>The example of the claim: \<open>agree\<close> and \<open>breach\<close> once each, and no other listed
  word.\<close>

lemma sentiment_example:
  "analyzeSentiment (draftWith ''We agree. A breach ends it.'' []) =
   \<lparr>sn_overall = ''neutral'', sn_positiveIndicators = 1, sn_negativeIndicators = 1\<rparr>"
  by code_simp

subsection \<open>Readability\<close>

lemma length_splitOn: "length (splitOn P t) = Suc (length (filter P t))"
  by (induction t) (auto split: list.splits)



text \<open>The counts of the formula, by the runs of white space and of vowels.\<close>

lemma splitWs_nonempty: "splitWs t \<noteq> []"
  by (induction t rule: splitWs.induct) (auto split: list.splits)

lemma words_runs: "length (splitWs t) = Suc (length (runs isSpace t))"
proof (induction t rule: splitWs.induct)
  case 1
  show ?case by simp
next
  case (2 c cs)
  show ?case
  proof (cases "isSpace c")
    case True
    with 2 show ?thesis by simp
  next
    case False
    with 2 splitWs_nonempty [of cs] show ?thesis
      by (cases "splitWs cs") simp_all
  qed
qed

lemma syllables_run:
  "\<forall>c \<in> set vs. isVowel c \<Longrightarrow> rest = [] \<or> \<not> isVowel (hd rest) \<Longrightarrow>
   estimateSyllables (vs @ rest) = (length vs + 1) div 2 + estimateSyllables rest"
proof (induction vs rule: estimateSyllables.induct)
  case 1
  show ?case by simp
next
  case (2 c)
  then show ?case by (cases rest) auto
next
  case (3 c d ds)
  then show ?case by simp
qed

lemma dropWhile_head: "dropWhile P cs = [] \<or> \<not> P (hd (dropWhile P cs))"
  by (metis hd_dropWhile)

lemma syllables_runs:
  "estimateSyllables t = sum_list (map (\<lambda>n. (n + 1) div 2) (runs isVowel t))"
proof (induction isVowel t rule: runs.induct)
  case 1
  show ?case by simp
next
  case (2 c cs)
  show ?case
  proof (cases "isVowel c")
    case True
    have allv: "\<forall>x \<in> set (c # takeWhile isVowel cs). isVowel x"
      using True by (auto dest: set_takeWhileD)
    have after: "dropWhile isVowel cs = [] \<or> \<not> isVowel (hd (dropWhile isVowel cs))"
      by (rule dropWhile_head)
    have "estimateSyllables (c # cs) =
        (length (c # takeWhile isVowel cs) + 1) div 2 + estimateSyllables (dropWhile isVowel cs)"
      using syllables_run [OF allv after] by simp
    with True 2 show ?thesis by simp
  next
    case False
    have "estimateSyllables (c # cs) = estimateSyllables cs"
      using False by (cases cs) simp_all
    with False 2 show ?thesis by simp
  qed
qed

lemma runs_append:
  "rest = [] \<or> \<not> P (hd rest) \<Longrightarrow> runs P (t @ rest) = runs P t @ runs P rest"
proof (induction P t rule: runs.induct)
  case (1 P)
  show ?case by simp
next
  case (2 P c cs)
  show ?case
  proof (cases "P c")
    case False
    with 2 show ?thesis by simp
  next
    case True
    have tw: "takeWhile P (cs @ rest) = takeWhile P cs" and
         dw: "dropWhile P (cs @ rest) = dropWhile P cs @ rest"
      if "\<exists>x \<in> set cs. \<not> P x"
      using that by (auto simp: takeWhile_append1 dropWhile_append1)
    have tw': "takeWhile P (cs @ rest) = cs" and dw': "dropWhile P (cs @ rest) = rest"
      and tc: "takeWhile P cs = cs" and dc: "dropWhile P cs = []"
      if "\<forall>x \<in> set cs. P x"
      using that "2.prems" by (cases rest; simp add: takeWhile_append2 dropWhile_append2)+
    show ?thesis
    proof (cases "\<forall>x \<in> set cs. P x")
      case all: True
      show ?thesis
        using True by (simp add: tw' [OF all] dw' [OF all] tc [OF all] dc [OF all])
    next
      case some: False
      then have ex: "\<exists>x \<in> set cs. \<not> P x" by simp
      show ?thesis
        using True "2.IH"(1) [OF True "2.prems"] by (simp add: tw [OF ex] dw [OF ex])
    qed
  qed
qed

lemma runs_replicate:
  assumes "b \<noteq> []" and "\<not> P (hd b)" and "rest = [] \<or> \<not> P (hd rest)"
  shows "runs P (concat (replicate n b) @ rest) = concat (replicate n (runs P b)) @ runs P rest"
proof (induction n)
  case 0
  show ?case by simp
next
  case (Suc n)
  have "concat (replicate n b) @ rest = [] \<or> \<not> P (hd (concat (replicate n b) @ rest))"
    using assms by (cases n) auto
  then have "runs P (b @ (concat (replicate n b) @ rest)) =
             runs P b @ runs P (concat (replicate n b) @ rest)"
    by (rule runs_append)
  with Suc show ?case by simp
qed

lemma filter_replicate_blocks:
  "length (filter P (concat (replicate n b))) = n * length (filter P b)"
  by (induction n) simp_all

text \<open>\<open>b64\<close> is the rounding that \<open>nearest53\<close> describes, and \<open>nearest53\<close> leaves no
  choice.\<close>

lemma pow2_powi: "pow2 k = 2 powi k"
proof (cases "0 \<le> k")
  case True
  then show ?thesis by (simp add: pow2_def power_int_def)
next
  case False
  have "(1 :: rat) / 2 ^ nat (- k) = inverse 2 ^ nat (- k)"
    by (simp add: inverse_eq_divide power_one_over)
  with False show ?thesis by (simp only: pow2_def power_int_def if_False)
qed

lemma bitlen_powi:
  assumes "0 < (p :: int)"
  shows "2 powi (bitlen p - 1) \<le> (of_int p :: rat) \<and> (of_int p :: rat) < 2 powi (bitlen p)"
proof -
  have b: "2 ^ nat (bitlen p - 1) \<le> p" "p < 2 ^ nat (bitlen p)"
    using bitlen_bounds [OF assms] by simp_all
  have pos: "1 \<le> bitlen p"
    using assms by (simp add: bitlen_alt_def)
  have "(of_int (2 ^ nat (bitlen p - 1)) :: rat) \<le> of_int p"
    using b(1) by (rule of_int_le_iff [THEN iffD2])
  then have lo: "(2 :: rat) ^ nat (bitlen p - 1) \<le> of_int p"
    by simp
  have "(of_int p :: rat) < of_int (2 ^ nat (bitlen p))"
    using b(2) by (rule of_int_less_iff [THEN iffD2])
  then have hi: "(of_int p :: rat) < 2 ^ nat (bitlen p)"
    by simp
  have "(2 :: rat) powi (bitlen p - 1) = 2 ^ nat (bitlen p - 1)"
    using pos by (simp add: power_int_def)
  moreover have "(2 :: rat) powi (bitlen p) = 2 ^ nat (bitlen p)"
    using pos by (simp add: power_int_def)
  ultimately show ?thesis
    using lo hi by simp
qed

lemma ilog2_bounds:
  assumes "0 < x"
  shows "2 powi (ilog2 x) \<le> x \<and> x < 2 powi (ilog2 x + 1)"
proof -
  obtain p q where pq: "quotient_of x = (p, q)"
    by force
  have q: "0 < q"
    using pq by (rule quotient_of_denom_pos)
  have x: "x = of_int p / of_int q"
    using pq by (rule quotient_of_div)
  have p: "0 < p"
    using assms q unfolding x by (simp add: zero_less_divide_iff)
  define k where "k = bitlen p - bitlen q"
  note bp = bitlen_powi [OF p] and bq = bitlen_powi [OF q]
  have qpos: "(0 :: rat) < of_int q" and ppos: "(0 :: rat) < of_int p"
    using p q by simp_all
  have two: "(0 :: rat) < 2 powi n" for n
    by simp
  have e1: "bitlen p - (bitlen q - 1) = k + 1" and e2: "bitlen p - 1 - bitlen q = k - 1"
    by (simp_all add: k_def)
  have "of_int p / of_int q < (2 :: rat) powi (bitlen p) / 2 powi (bitlen q - 1)"
  proof (rule frac_less)
    show "(0 :: rat) \<le> of_int p" using ppos by simp
    show "(of_int p :: rat) < 2 powi bitlen p" using bp by simp
    show "(0 :: rat) < 2 powi (bitlen q - 1)" by (rule two)
    show "(2 :: rat) powi (bitlen q - 1) \<le> of_int q" using bq by simp
  qed
  also have "\<dots> = 2 powi (bitlen p - (bitlen q - 1))"
    by (rule power_int_diff [symmetric]) simp
  finally have upper: "x < 2 powi (k + 1)"
    unfolding x e1 .
  have "(2 :: rat) powi (bitlen p - 1) / 2 powi (bitlen q) \<le> of_int p / of_int q"
  proof (rule frac_le)
    show "(0 :: rat) \<le> of_int p" using ppos by simp
    show "(2 :: rat) powi (bitlen p - 1) \<le> of_int p" using bp by simp
    show "(0 :: rat) < of_int q" by (rule qpos)
    show "(of_int q :: rat) \<le> 2 powi bitlen q" using bq by simp
  qed
  moreover have "(2 :: rat) powi (bitlen p - 1) / 2 powi (bitlen q) =
                 2 powi (bitlen p - 1 - bitlen q)"
    by (rule power_int_diff [symmetric]) simp
  ultimately have lower: "2 powi (k - 1) \<le> x"
    unfolding x e2 by simp
  have il: "ilog2 x = (if 2 powi k \<le> x then k else k - 1)"
    by (simp add: ilog2_def pq k_def pow2_powi)
  show ?thesis
  proof (cases "2 powi k \<le> x")
    case True
    with upper il show ?thesis by simp
  next
    case False
    with lower il show ?thesis by simp
  qed
qed

lemma roundEven_cases:
  fixes q :: rat
  defines "f \<equiv> \<lfloor>q\<rfloor>"
  shows "(q - of_int f < 1 / 2 \<and> roundEven q = f) \<or>
         (1 / 2 < q - of_int f \<and> roundEven q = f + 1) \<or>
         (q - of_int f = 1 / 2 \<and> even (roundEven q) \<and> (roundEven q = f \<or> roundEven q = f + 1))"
  unfolding roundEven_def Let_def f_def by auto

lemma roundEven_near: "2 * \<bar>of_int (roundEven q) - q\<bar> \<le> 1"
proof -
  define f where "f = \<lfloor>q\<rfloor>"
  have fb: "of_int f \<le> q" "q < of_int f + 1"
    unfolding f_def by linarith+
  consider "q - of_int f < 1 / 2" "roundEven q = f"
    | "1 / 2 < q - of_int f" "roundEven q = f + 1"
    | "q - of_int f = 1 / 2" "roundEven q = f \<or> roundEven q = f + 1"
    using roundEven_cases [of q] unfolding f_def by blast
  then show ?thesis
  proof cases
    case 1
    with fb show ?thesis by simp
  next
    case 2
    with fb show ?thesis by simp
  next
    case 3
    with fb show ?thesis by auto
  qed
qed

lemma roundEven_tie: "2 * \<bar>of_int (roundEven q) - q\<bar> < 1 \<or> even (roundEven q)"
proof -
  define f where "f = \<lfloor>q\<rfloor>"
  have fb: "of_int f \<le> q" "q < of_int f + 1"
    unfolding f_def by linarith+
  consider "q - of_int f < 1 / 2" "roundEven q = f"
    | "1 / 2 < q - of_int f" "roundEven q = f + 1"
    | "even (roundEven q)"
    using roundEven_cases [of q] unfolding f_def by blast
  then show ?thesis
  proof cases
    case 1
    with fb show ?thesis by simp
  next
    case 2
    with fb show ?thesis by simp
  next
    case 3
    then show ?thesis by simp
  qed
qed

lemma b64_nearest53: "nearest53 x (b64 x)"
proof (cases "x = 0")
  case True
  then show ?thesis by (simp add: nearest53_def b64_def)
next
  case False
  define k where "k = ilog2 \<bar>x\<bar>"
  define u where "u = (2 :: rat) powi (k - 52)"
  define n where "n = roundEven (\<bar>x\<bar> / u)"
  define m where "m = (if 0 < x then n else - n)"
  define d where "d = \<bar>of_int n - \<bar>x\<bar> / u\<bar>"
  have upos: "0 < u"
    by (simp add: u_def)
  have apos: "0 < \<bar>x\<bar>"
    using False by simp
  have bounds: "2 powi k \<le> \<bar>x\<bar>" "\<bar>x\<bar> < 2 powi (k + 1)"
    using ilog2_bounds [OF apos] by (simp_all add: k_def)
  have "b64 x = sgn x * of_int n * u"
    unfolding b64_def Let_def pow2_powi n_def u_def k_def using False by simp
  moreover have "sgn x * of_int n = of_int m"
    using False by (simp add: m_def sgn_if)
  ultimately have r: "b64 x = of_int m * u"
    by simp
  have "of_int m * u - x = sgn x * (of_int n * u - \<bar>x\<bar>)"
    using False by (simp add: m_def sgn_if abs_if algebra_simps)
  then have "\<bar>of_int m * u - x\<bar> = \<bar>of_int n * u - \<bar>x\<bar>\<bar>"
    using False by (simp add: abs_mult abs_sgn_eq)
  moreover have "of_int n * u - \<bar>x\<bar> = u * (of_int n - \<bar>x\<bar> / u)"
    using upos by (simp add: right_diff_distrib)
  ultimately have "\<bar>b64 x - x\<bar> = u * d"
    using upos unfolding r d_def by (simp add: abs_mult)
  then have dist: "2 * \<bar>b64 x - x\<bar> = u * (2 * d)"
    by simp
  have d1: "2 * d \<le> 1"
    unfolding d_def n_def by (rule roundEven_near)
  have d2: "2 * d < 1 \<or> even n"
    unfolding d_def n_def by (rule roundEven_tie)
  have "u * (2 * d) \<le> u * 1"
    using d1 upos by (intro mult_left_mono) simp_all
  then have near: "2 * \<bar>b64 x - x\<bar> \<le> u"
    unfolding dist by simp
  have tie: "2 * \<bar>b64 x - x\<bar> < u \<or> even m"
  proof (cases "even n")
    case True
    then show ?thesis by (simp add: m_def)
  next
    case odd: False
    with d2 have "2 * d < 1"
      by simp
    then have "u * (2 * d) < u * 1"
      using upos by (rule mult_strict_left_mono)
    then show ?thesis
      unfolding dist by simp
  qed
  have "\<exists>k m. 2 powi k \<le> \<bar>x\<bar> \<and> \<bar>x\<bar> < 2 powi (k + 1) \<and>
             b64 x = of_int m * 2 powi (k - 52) \<and>
             2 * \<bar>b64 x - x\<bar> \<le> 2 powi (k - 52) \<and>
             (2 * \<bar>b64 x - x\<bar> < 2 powi (k - 52) \<or> even m)"
    using bounds r near tie unfolding u_def by (intro exI [of _ k] exI [of _ m]) simp
  then show ?thesis
    unfolding nearest53_def by (rule disjI2)
qed

lemma powi_exponent_le:
  fixes a :: rat
  assumes "2 powi k \<le> a" and "a < 2 powi (k' + 1)"
  shows "k \<le> k'"
proof (rule ccontr)
  assume "\<not> k \<le> k'"
  then have "k' + 1 \<le> k" by simp
  then have "(2 :: rat) powi (k' + 1) \<le> 2 powi k"
    by (rule power_int_increasing) simp
  with assms show False by simp
qed

lemma scaled_distance:
  fixes u x :: rat
  assumes "0 < u"
  shows "\<bar>of_int m * u - x\<bar> = u * \<bar>of_int m - x / u\<bar>"
proof -
  have "of_int m * u - x = u * (of_int m - x / u)"
    using assms by (simp add: right_diff_distrib)
  then show ?thesis
    using assms by (simp add: abs_mult)
qed

lemma nearest53_unique:
  assumes "nearest53 x r" and "nearest53 x r'"
  shows "r = r'"
proof (cases "x = 0")
  case True
  have "\<not> (2 :: rat) powi k \<le> 0" for k
    by (simp add: not_le)
  with True assms show ?thesis
    by (auto simp: nearest53_def)
next
  case False
  from assms(1) False obtain k m where
    k: "2 powi k \<le> \<bar>x\<bar>" "\<bar>x\<bar> < 2 powi (k + 1)" and
    r: "r = of_int m * 2 powi (k - 52)" and
    near: "2 * \<bar>r - x\<bar> \<le> 2 powi (k - 52)" and
    tie: "2 * \<bar>r - x\<bar> < 2 powi (k - 52) \<or> even m"
    unfolding nearest53_def by blast
  from assms(2) False obtain k' m' where
    k': "2 powi k' \<le> \<bar>x\<bar>" "\<bar>x\<bar> < 2 powi (k' + 1)" and
    r': "r' = of_int m' * 2 powi (k' - 52)" and
    near': "2 * \<bar>r' - x\<bar> \<le> 2 powi (k' - 52)" and
    tie': "2 * \<bar>r' - x\<bar> < 2 powi (k' - 52) \<or> even m'"
    unfolding nearest53_def by blast
  have same: "k' = k"
    using powi_exponent_le [OF k(1) k'(2)] powi_exponent_le [OF k'(1) k(2)] by simp
  define u where "u = (2 :: rat) powi (k - 52)"
  define t where "t = x / u"
  define a where "a = \<bar>of_int m - t\<bar>"
  define b where "b = \<bar>of_int m' - t\<bar>"
  have upos: "0 < u"
    by (simp add: u_def)
  have da: "\<bar>r - x\<bar> = u * a" and db: "\<bar>r' - x\<bar> = u * b"
    unfolding r r' same a_def b_def t_def u_def [symmetric]
    by (rule scaled_distance [OF upos])+
  have a1: "2 * a \<le> 1"
  proof -
    have "u * (2 * a) \<le> u * 1"
      using near unfolding da u_def [symmetric] by simp
    then show ?thesis
      using upos by (simp only: mult_le_cancel_left_pos)
  qed
  have b1: "2 * b \<le> 1"
  proof -
    have "u * (2 * b) \<le> u * 1"
      using near' unfolding db same u_def [symmetric] by simp
    then show ?thesis
      using upos by (simp only: mult_le_cancel_left_pos)
  qed
  have a2: "2 * a < 1 \<or> even m"
  proof -
    have "u * (2 * a) < u * 1 \<or> even m"
      using tie unfolding da u_def [symmetric] by (simp add: mult.left_commute)
    then show ?thesis
      using upos by (simp only: mult_less_cancel_left_pos)
  qed
  have b2: "2 * b < 1 \<or> even m'"
  proof -
    have "u * (2 * b) < u * 1 \<or> even m'"
      using tie' unfolding db same u_def [symmetric] by (simp add: mult.left_commute)
    then show ?thesis
      using upos by (simp only: mult_less_cancel_left_pos)
  qed
  have diff: "\<bar>(of_int m :: rat) - of_int m'\<bar> \<le> a + b"
    unfolding a_def b_def by linarith
  have "m = m'"
  proof (rule ccontr)
    assume ne: "m \<noteq> m'"
    then have "1 \<le> \<bar>m - m'\<bar>"
      by simp
    then have "(1 :: rat) \<le> of_int \<bar>m - m'\<bar>"
      by (metis of_int_1 of_int_le_iff)
    then have one: "(1 :: rat) \<le> \<bar>of_int m - of_int m'\<bar>"
      by simp
    with diff a1 b1 have ta: "2 * a = 1" and tb: "2 * b = 1"
      and "\<bar>(of_int m :: rat) - of_int m'\<bar> \<le> 1"
      by linarith+
    then have "(of_int \<bar>m - m'\<bar> :: rat) \<le> of_int 1"
      by simp
    then have le: "\<bar>m - m'\<bar> \<le> 1"
      by (simp only: of_int_le_iff)
    have "even m" and "even m'"
      using a2 b2 ta tb by simp_all
    with ne le show False
      by presburger
  qed
  then show ?thesis
    by (simp add: r r' same)
qed

text \<open>The counts of the two texts of short words.\<close>

lemma hd_blocks: "0 < n \<Longrightarrow> b \<noteq> [] \<Longrightarrow> hd (concat (replicate n b) @ rest) = hd b"
  by (cases n) auto

lemma hd_blocks0: "0 < n \<Longrightarrow> b \<noteq> [] \<Longrightarrow> hd (concat (replicate n b)) = hd b"
  by (cases n) auto

lemma length_blocks: "length (concat (replicate n b)) = n * length b"
  by (induction n) simp_all

lemma sum_blocks: "sum_list (map f (concat (replicate n b))) = n * sum_list (map f b)"
  by (induction n) simp_all

lemma draft_text: "extractAllText (draftWith t []) = t"
  by (simp add: extractAllText_def draftWith_def)

lemma short_words:
  "runs isSpace ''data '' = [1]" "runs isSpace ''law '' = [1]" "runs isSpace ''law. '' = [1]"
  "runs isSpace ''law.'' = []"
  "runs isVowel ''data '' = [1, 1]" "runs isVowel ''law '' = [1]" "runs isVowel ''law. '' = [1]"
  "runs isVowel ''law.'' = [1]"
  "filter isTerminator ''data '' = []" "filter isTerminator ''law '' = []"
  "filter isTerminator ''law. '' = ''.''" "filter isTerminator ''law.'' = ''.''"
  "\<not> isSpace CHR ''d''" "\<not> isSpace CHR ''l''" "\<not> isVowel CHR ''d''" "\<not> isVowel CHR ''l''"
  by code_simp+

lemma block_runs:
  assumes "0 < a" and "0 < b" and "0 < c" and "\<not> P CHR ''d''" and "\<not> P CHR ''l''"
  shows "runs P (concat (replicate a ''data '') @ concat (replicate b ''law '') @
                 concat (replicate c ''law. '') @ ''law.'') =
         concat (replicate a (runs P ''data '')) @ concat (replicate b (runs P ''law '')) @
         concat (replicate c (runs P ''law. '')) @ runs P ''law.''"
proof -
  have 3: "runs P (concat (replicate c ''law. '') @ ''law.'') =
           concat (replicate c (runs P ''law. '')) @ runs P ''law.''"
    using assms by (intro runs_replicate) simp_all
  have 2: "runs P (concat (replicate b ''law '') @ concat (replicate c ''law. '') @ ''law.'') =
           concat (replicate b (runs P ''law '')) @
           runs P (concat (replicate c ''law. '') @ ''law.'')"
    using assms by (intro runs_replicate) (simp_all add: hd_blocks hd_blocks0)
  have 1: "runs P (concat (replicate a ''data '') @ concat (replicate b ''law '') @
                   concat (replicate c ''law. '') @ ''law.'') =
           concat (replicate a (runs P ''data '')) @
           runs P (concat (replicate b ''law '') @ concat (replicate c ''law. '') @ ''law.'')"
    using assms by (intro runs_replicate) (simp_all add: hd_blocks hd_blocks0)
  show ?thesis
    unfolding 1 2 3 by simp
qed

lemma block_words:
  assumes "0 < a" and "0 < b" and "0 < c"
  shows "length (splitWs (concat (replicate a ''data '') @ concat (replicate b ''law '') @
                 concat (replicate c ''law. '') @ ''law.'')) = Suc (a + b + c)"
  unfolding words_runs block_runs [OF assms short_words(13) short_words(14)] short_words
    length_append length_blocks
  by simp

lemma block_sentences:
  "length (splitOn isTerminator (concat (replicate a ''data '') @ concat (replicate b ''law '') @
                 concat (replicate c ''law. '') @ ''law.'')) = Suc (Suc c)"
  unfolding length_splitOn filter_append length_append filter_replicate_blocks short_words
  by simp

lemma block_syllables:
  assumes "0 < a" and "0 < b" and "0 < c"
  shows "estimateSyllables (concat (replicate a ''data '') @ concat (replicate b ''law '') @
                 concat (replicate c ''law. '') @ ''law.'') = Suc (2 * a + b + c)"
  unfolding syllables_runs block_runs [OF assms short_words(15) short_words(16)] short_words
    map_append sum_list_append sum_blocks
  by simp

lemma boundary_counts:
  "length (splitWs (extractAllText boundaryDraft)) = 160"
  "length (splitOn isTerminator (extractAllText boundaryDraft)) = 7"
  "estimateSyllables (extractAllText boundaryDraft) = 196"
  unfolding boundaryDraft_def draft_text
  by (simp_all only: block_words block_sentences block_syllables zero_less_numeral)

lemma halfway_counts:
  "length (splitWs (extractAllText halfwayDraft)) = 520"
  "length (splitOn isTerminator (extractAllText halfwayDraft)) = 14"
  "estimateSyllables (extractAllText halfwayDraft) = 637"
  unfolding halfwayDraft_def draft_text
  by (simp_all only: block_words block_sentences block_syllables zero_less_numeral)

text \<open>The steps of the formula at 160 words, 7 sentences, 196 syllables and at 520
  words, 14 sentences, 637 syllables.\<close>

lemma constants:
  "literalN (206835 / 1000) = 7277359600993567 / 35184372088832"
  "literalN (1015 / 1000) = 4571153621781053 / 4503599627370496"
  "literalN (846 / 10) = 2976597878715187 / 35184372088832"
  by code_simp+

lemma syllable_term:
  "divN 196 160 = 2758454771764429 / 2251799813685248"
  "divN 637 520 = 2758454771764429 / 2251799813685248"
  "mulN (2976597878715187 / 35184372088832) (2758454771764429 / 2251799813685248) =
     7292664802852209 / 70368744177664"
  by code_simp+

lemma boundary_steps:
  "divN 160 7 = 6433713753386423 / 281474976710656"
  "mulN (4571153621781053 / 4503599627370496) (6433713753386423 / 281474976710656) =
     6530219459687219 / 281474976710656"
  "subN (7277359600993567 / 35184372088832) (6530219459687219 / 281474976710656) =
     6461082168532665 / 35184372088832"
  "subN (6461082168532665 / 35184372088832) (7292664802852209 / 70368744177664) =
     5629499534213121 / 70368744177664"
  by code_simp+

lemma halfway_steps:
  "divN 520 14 = 5227392424626469 / 140737488355328"
  "mulN (4571153621781053 / 4503599627370496) (5227392424626469 / 140737488355328) =
     2652901655497933 / 70368744177664"
  "subN (7277359600993567 / 35184372088832) (2652901655497933 / 70368744177664) =
     743863596655575 / 4398046511104"
  "subN (743863596655575 / 4398046511104) (7292664802852209 / 70368744177664) =
     4609152743636991 / 70368744177664"
  by code_simp+

lemma boundary_ease: "readingEase 160 7 196 = 5629499534213121 / 70368744177664"
  unfolding readingEase_def of_nat_numeral constants syllable_term boundary_steps
  by simp

lemma halfway_ease: "readingEase 520 14 637 = 4609152743636991 / 70368744177664"
  unfolding readingEase_def of_nat_numeral constants syllable_term halfway_steps
  by simp

lemma exact_values: "exactEase 160 7 196 = 80" "exactEase 520 14 637 = 131 / 2"
  by (simp_all add: exactEase_def)


subsection \<open>The whole analysis\<close>

text \<open>
  Claim C4 says that two calls on the same document give results equal in all fields.
  \<open>analyzedAt\<close> is the date of the call, so two calls at different times differ there.
\<close>

theorem analyze_timestamp_differs:
  "analyze 0 (draftWith ''x'' []) \<noteq> analyze 1 (draftWith ''x'' [])"
  by (simp add: analyze_def analyzeStructure_def draftWith_def)

text \<open>
  Claim C4, amended. Two calls of \<open>analyze\<close> on the same document fail alike or give
  results that are equal in every field other than \<open>analyzedAt\<close>: the result of the
  one call is that of the other with its own date for \<open>analyzedAt\<close>.
\<close>

theorem analyze_deterministic_but_for_clock:
  "analyze now1 d = map_sum id (\<lambda>a. a\<lparr>an_analyzedAt := now1\<rparr>) (analyze now2 d)"
  by (simp add: analyze_def split: sum.splits)

end
